theory Spec2Isabelle
  imports Complex_Main
begin

section \<open>JavaScript values\<close>

text \<open>
  The validator of \<^verbatim>\<open>src/languageservice/parser/jsonParser.ts\<close> works on three kinds of
  data: the numbers of the document and of the schema, the schema itself (a plain JavaScript
  object read with dynamic checks such as \<^verbatim>\<open>Array.isArray\<close> and \<^verbatim>\<open>isNumber\<close>) and the syntax
  tree of the document.

  A JavaScript number is an IEEE double. The validator only compares numbers and takes one
  remainder; both are exact on the values of doubles, so a finite number is kept as the
  rational it denotes, next to the three special values.
\<close>

datatype number = NaN | NegInfinity | Finite rat | PosInfinity

text \<open>The relational operators \<^verbatim>\<open><\<close>, \<^verbatim>\<open><=\<close>, \<^verbatim>\<open>>\<close>, \<^verbatim>\<open>>=\<close> and \<^verbatim>\<open>===\<close> on numbers:
  every comparison with \<^verbatim>\<open>NaN\<close> is false.\<close>

fun num_lt :: "number \<Rightarrow> number \<Rightarrow> bool" where
  "num_lt NaN _ = False"
| "num_lt _ NaN = False"
| "num_lt _ NegInfinity = False"
| "num_lt NegInfinity _ = True"
| "num_lt PosInfinity _ = False"
| "num_lt (Finite a) (Finite b) = (a < b)"
| "num_lt (Finite a) PosInfinity = True"

fun num_eq :: "number \<Rightarrow> number \<Rightarrow> bool" where
  "num_eq NaN _ = False"
| "num_eq _ NaN = False"
| "num_eq a b = (a = b)"

definition num_le :: "number \<Rightarrow> number \<Rightarrow> bool" where
  "num_le a b = (num_lt a b \<or> num_eq a b)"

definition num_gt :: "number \<Rightarrow> number \<Rightarrow> bool" where
  "num_gt a b = num_lt b a"

definition num_ge :: "number \<Rightarrow> number \<Rightarrow> bool" where
  "num_ge a b = num_le b a"

text \<open>The remainder \<^verbatim>\<open>x % m\<close>: the sign of the dividend, the quotient truncated towards zero.\<close>

definition trunc :: "rat \<Rightarrow> int" where
  "trunc r = (if 0 \<le> r then \<lfloor>r\<rfloor> else \<lceil>r\<rceil>)"

fun js_rem :: "number \<Rightarrow> number \<Rightarrow> number" where
  "js_rem (Finite x) (Finite m) = (if m = 0 then NaN else Finite (x - m * of_int (trunc (x / m))))"
| "js_rem (Finite x) PosInfinity = Finite x"
| "js_rem (Finite x) NegInfinity = Finite x"
| "js_rem _ _ = NaN"

text \<open>
  A JavaScript value as the validator meets it: what \<^verbatim>\<open>JSON.parse\<close> produces, and
  \<^verbatim>\<open>undefined\<close> (the value of a property that is not there). An object lists its own
  properties in the order in which \<^verbatim>\<open>Object.keys\<close> enumerates them.
\<close>

datatype jsval =
    JUndefined
  | JNull
  | JBool bool
  | JNum number
  | JStr string
  | JArr "jsval list"
  | JObj "(string \<times> jsval) list"

section \<open>Reading JavaScript values\<close>

text \<open>
  Modelled from the spec: the helpers \<^verbatim>\<open>isNumber\<close>, \<^verbatim>\<open>isBoolean\<close>, \<^verbatim>\<open>isString\<close> and
  \<^verbatim>\<open>isDefined\<close> of \<^verbatim>\<open>../utils/objects\<close>, a file that is not among the sources. The
  specification uses them as the type tests their names say ("if \<^verbatim>\<open>exclusiveMinimum\<close> is a
  boolean", "if it is a number"); \<^verbatim>\<open>isDefined\<close> is false of \<^verbatim>\<open>undefined\<close> only.
\<close>

definition isNumber :: "jsval \<Rightarrow> bool" where
  "isNumber v = (case v of JNum n \<Rightarrow> True | _ \<Rightarrow> False)"

definition isBoolean :: "jsval \<Rightarrow> bool" where
  "isBoolean v = (case v of JBool b \<Rightarrow> True | _ \<Rightarrow> False)"

definition isString :: "jsval \<Rightarrow> bool" where
  "isString v = (case v of JStr s \<Rightarrow> True | _ \<Rightarrow> False)"

definition isDefined :: "jsval \<Rightarrow> bool" where
  "isDefined v = (v \<noteq> JUndefined)"

text \<open>
  Modelled from the spec: \<^verbatim>\<open>equals\<close> of \<^verbatim>\<open>../utils/objects\<close>, a file that is not among the
  sources. It is the deep equality of the specification: null, booleans, numbers and strings
  by value (\<^verbatim>\<open>NaN\<close> differs from itself), arrays element-wise in order, objects by the same
  key set and key-wise equal values.
\<close>

fun equals :: "jsval \<Rightarrow> jsval \<Rightarrow> bool" where
  "equals (JArr xs) (JArr ys) = list_all2 equals xs ys"
| "equals (JObj kvs) (JObj kvs') =
     (set (map fst kvs) = set (map fst kvs') \<and>
      list_all (\<lambda>(k, v). case map_of kvs' k of Some v' \<Rightarrow> equals v v' | None \<Rightarrow> False) kvs)"
| "equals (JNum a) (JNum b) = num_eq a b"
| "equals (JStr a) (JStr b) = (a = b)"
| "equals (JBool a) (JBool b) = (a = b)"
| "equals JNull JNull = True"
| "equals JUndefined JUndefined = True"
| "equals _ _ = False"

text \<open>\<^verbatim>\<open>Array.isArray(v)\<close>, \<^verbatim>\<open>typeof v === 'object'\<close> (true of \<^verbatim>\<open>null\<close> and of arrays too) and
  the truth value of \<open>v\<close> in a condition.\<close>

definition isArray :: "jsval \<Rightarrow> bool" where
  "isArray v = (case v of JArr xs \<Rightarrow> True | _ \<Rightarrow> False)"

definition typeof_object :: "jsval \<Rightarrow> bool" where
  "typeof_object v = (case v of JNull \<Rightarrow> True | JArr xs \<Rightarrow> True | JObj kvs \<Rightarrow> True | _ \<Rightarrow> False)"

fun truthy :: "jsval \<Rightarrow> bool" where
  "truthy JUndefined = False"
| "truthy JNull = False"
| "truthy (JBool b) = b"
| "truthy (JNum n) = (n \<noteq> NaN \<and> n \<noteq> Finite 0)"
| "truthy (JStr s) = (s \<noteq> [])"
| "truthy (JArr xs) = True"
| "truthy (JObj kvs) = True"

fun elems :: "jsval \<Rightarrow> jsval list" where
  "elems (JArr xs) = xs"
| "elems _ = []"

text \<open>
  The own enumerable properties of a value, in the order of \<^verbatim>\<open>Object.keys\<close>: those of an
  object, the indices of an array, the indices of a string (each holding a one-character
  string); a number, a boolean, \<^verbatim>\<open>null\<close> and \<^verbatim>\<open>undefined\<close> have none. \<open>get v k\<close> is the
  read \<^verbatim>\<open>v[k]\<close> of an own property, \<^verbatim>\<open>undefined\<close> when there is none. The validator reads
  a schema by keyword and a schema map by the keys that \<^verbatim>\<open>Object.keys\<close> gave, so that
  inherited properties (\<^verbatim>\<open>length\<close>, the methods of the prototypes) are never read. Reading
  a property of \<^verbatim>\<open>null\<close> or \<^verbatim>\<open>undefined\<close> throws; \<open>validate\<close> below checks for that case
  before it reads the schema.
\<close>

definition digit :: "nat \<Rightarrow> char" where
  "digit d = ''0123456789'' ! d"

fun index_key :: "nat \<Rightarrow> string" where
  "index_key n = (if n < 10 then [digit n] else index_key (n div 10) @ [digit (n mod 10)])"

declare index_key.simps [simp del]

fun own_entries :: "jsval \<Rightarrow> (string \<times> jsval) list" where
  "own_entries (JObj kvs) = kvs"
| "own_entries (JArr xs) = zip (map index_key [0..<length xs]) xs"
| "own_entries (JStr s) = zip (map index_key [0..<length s]) (map (\<lambda>c. JStr [c]) s)"
| "own_entries _ = []"

definition get :: "jsval \<Rightarrow> string \<Rightarrow> jsval" where
  "get v k = (case map_of (own_entries v) k of Some x \<Rightarrow> x | None \<Rightarrow> JUndefined)"

definition Object_keys :: "jsval \<Rightarrow> string list" where
  "Object_keys v = map fst (own_entries v)"

text \<open>\<^verbatim>\<open>asSchema\<close>: a boolean schema becomes the empty schema or \<^verbatim>\<open>{ "not": {} }\<close>.\<close>

definition asSchema :: "jsval \<Rightarrow> jsval" where
  "asSchema schema =
     (if isBoolean schema then (if truthy schema then JObj [] else JObj [(''not'', JObj [])])
      else schema)"

text \<open>
  The measure of a schema for the recursion of the validator: every schema that \<open>validate\<close>
  passes to itself from a schema \<open>s\<close> is read from \<open>s\<close>, so it weighs less; a boolean weighs
  no less than the schema that \<^verbatim>\<open>asSchema\<close> makes of it.
\<close>

fun weight :: "jsval \<Rightarrow> nat" where
  "weight (JBool b) = 2"
| "weight (JArr xs) = Suc (sum_list (map weight xs))"
| "weight (JObj kvs) = Suc (sum_list (map (\<lambda>(k, v). weight v) kvs))"
| "weight _ = 1"

text \<open>A keyword is a property name that is not an array index: it has a character that is
  no digit.\<close>

definition keyword :: "string \<Rightarrow> bool" where
  "keyword k = list_ex (\<lambda>c. c \<notin> set ''0123456789'') k"

lemma digit_in: "d < 10 \<Longrightarrow> digit d \<in> set ''0123456789''"
  unfolding digit_def by (rule nth_mem) simp

lemma index_key_digits: "set (index_key n) \<subseteq> set ''0123456789''"
proof (induction n rule: index_key.induct)
  case (1 n)
  show ?case
  proof (cases "n < 10")
    case True
    then show ?thesis
      using digit_in [of n] by (subst index_key.simps) simp
  next
    case False
    then show ?thesis
      using 1 digit_in [of "n mod 10"] by (subst index_key.simps) simp
  qed
qed

lemma keyword_not_index: "keyword k \<Longrightarrow> k \<noteq> index_key n"
  using index_key_digits [of n] by (auto simp: keyword_def list_ex_iff)

lemma keyword_not_in_indices:
  assumes "keyword k"
  shows "map_of (zip (map index_key ns) ys) k = None"
proof -
  have "k \<notin> fst ` set (zip (map index_key ns) ys)"
  proof
    assume "k \<in> fst ` set (zip (map index_key ns) ys)"
    then obtain y where "(k, y) \<in> set (zip (map index_key ns) ys)"
      by auto
    then have "k \<in> set (map index_key ns)"
      by (rule set_zip_leftD)
    then obtain n where "k = index_key n"
      by auto
    with assms keyword_not_index show False
      by blast
  qed
  then show ?thesis
    by (simp add: map_of_eq_None_iff)
qed

lemma weight_pos: "0 < weight v"
  by (cases v) auto

lemma weight_elem: "x \<in> set xs \<Longrightarrow> weight x < weight (JArr xs)"
  using member_le_sum_list [of "weight x" "map weight xs"] by (auto simp: less_Suc_eq_le)

lemma weight_member: "(k, x) \<in> set kvs \<Longrightarrow> weight x < weight (JObj kvs)"
  using member_le_sum_list [of "weight x" "map (\<lambda>(k, v). weight v) kvs"]
  by (force simp: less_Suc_eq_le)

lemma weight_elems: "x \<in> set (elems v) \<Longrightarrow> weight x < weight v"
  by (cases v) (auto simp del: weight.simps simp: weight_elem)

lemma weight_get_le: "weight (get v k) \<le> weight v"
proof (cases "map_of (own_entries v) k")
  case None
  then show ?thesis
    using weight_pos [of v] by (simp add: get_def Suc_le_eq)
next
  case (Some x)
  then have mem: "(k, x) \<in> set (own_entries v)"
    by (rule map_of_SomeD)
  have "weight x \<le> weight v"
  proof (cases v)
    case (JArr xs)
    with mem have "x \<in> set xs" by (auto dest: set_zip_rightD)
    then show ?thesis using weight_elem [of x xs] JArr by simp
  next
    case (JObj kvs)
    with mem show ?thesis using weight_member [of k x kvs] by simp
  next
    case (JStr s)
    with mem show ?thesis by (auto dest!: set_zip_rightD)
  qed (use mem in auto)
  with Some show ?thesis by (simp add: get_def)
qed

lemma weight_get_keyword:
  assumes "keyword k" and "get v k \<noteq> JUndefined"
  shows "weight (get v k) < weight v"
proof (cases v)
  case (JObj kvs)
  with assms(2) obtain x where "map_of kvs k = Some x"
    by (auto simp: get_def split: option.splits)
  then show ?thesis
    using JObj weight_member [of k x kvs] by (auto simp: get_def dest: map_of_SomeD)
qed (use assms in \<open>auto simp: get_def keyword_not_in_indices\<close>)

lemma weight_asSchema: "weight (asSchema v) \<le> weight v"
  by (cases v) (auto simp: asSchema_def isBoolean_def)

section \<open>Problems and the validation result\<close>

record IRange =
  offset :: int
  len :: int

datatype DiagnosticSeverity = Error | Warning | Information | Hint

datatype ErrorCode = EnumValueMismatch

text \<open>
  Messages come from \<^verbatim>\<open>localize(key, template, args...)\<close> of the external package vscode-nls,
  or from the schema (\<^verbatim>\<open>errorMessage\<close> and its relatives). The localization is not part of
  the validator: a localized message is kept as the arguments of the call. An argument is a
  value passed as it is, a value under \<^verbatim>\<open>JSON.stringify\<close>, a list joined with a comma
  (stringified or not), an already localized message or the text of an exception.
\<close>

datatype message =
    Localize string string "larg list"
  | FromSchema jsval
and larg =
    Raw jsval
  | Stringify jsval
  | StringifyJoin "jsval list"
  | Join "jsval list"
  | Nested message
  | Text string

record IProblem =
  location :: IRange
  severity :: DiagnosticSeverity
  code :: "ErrorCode option"
  message :: message

text \<open>
  The three scores are JavaScript numbers that only ever hold counts; they are integers here
  (the arithmetic of doubles is exact on integers below \<open>2 ^ 53\<close>).
\<close>

record ValidationResult =
  problems :: "IProblem list"
  propertiesMatches :: int
  propertiesValueMatches :: int
  primaryValueMatches :: int
  enumValueMatch :: bool
  enumValues :: "jsval list option"

definition new_ValidationResult :: ValidationResult where
  "new_ValidationResult =
     \<lparr>problems = [], propertiesMatches = 0, propertiesValueMatches = 0,
      primaryValueMatches = 0, enumValueMatch = False, enumValues = None\<rparr>"

definition hasProblems :: "ValidationResult \<Rightarrow> bool" where
  "hasProblems this = (length (problems this) \<noteq> 0)"

definition merge :: "ValidationResult \<Rightarrow> ValidationResult \<Rightarrow> ValidationResult" where
  "merge this validationResult = this\<lparr>problems := problems this @ problems validationResult\<rparr>"

definition mergeAll :: "ValidationResult \<Rightarrow> ValidationResult list \<Rightarrow> ValidationResult" where
  "mergeAll this validationResults = foldl merge this validationResults"

definition enumWarning :: "jsval list \<Rightarrow> message" where
  "enumWarning vs =
     Localize ''enumWarning'' ''Value is not accepted. Valid values: {0}.'' [StringifyJoin vs]"

definition mergeEnumValues :: "ValidationResult \<Rightarrow> ValidationResult \<Rightarrow> ValidationResult" where
  "mergeEnumValues this validationResult =
     (case (enumValues this, enumValues validationResult) of
        (Some mine, Some theirs) \<Rightarrow>
          if \<not> enumValueMatch this \<and> \<not> enumValueMatch validationResult then
            let vs = mine @ theirs in
            this\<lparr>enumValues := Some vs,
                 problems := map (\<lambda>error. if code error = Some EnumValueMismatch
                                           then error\<lparr>message := enumWarning vs\<rparr> else error)
                               (problems this)\<rparr>
          else this
      | _ \<Rightarrow> this)"

definition mergePropertyMatch :: "ValidationResult \<Rightarrow> ValidationResult \<Rightarrow> ValidationResult" where
  "mergePropertyMatch this propertyValidationResult =
     (let r1 = merge this propertyValidationResult;
          r2 = r1\<lparr>propertiesMatches := propertiesMatches r1 + 1\<rparr>;
          r3 = (if enumValueMatch propertyValidationResult \<or>
                   (\<not> hasProblems propertyValidationResult \<and>
                    propertiesMatches propertyValidationResult \<noteq> 0)
                then r2\<lparr>propertiesValueMatches := propertiesValueMatches r2 + 1\<rparr> else r2)
      in if enumValueMatch propertyValidationResult \<and>
            (case enumValues propertyValidationResult of
               Some vs \<Rightarrow> length vs = 1 | None \<Rightarrow> False)
         then r3\<lparr>primaryValueMatches := primaryValueMatches r3 + 1\<rparr> else r3)"

definition compare :: "ValidationResult \<Rightarrow> ValidationResult \<Rightarrow> int" where
  "compare this other =
     (if hasProblems this \<noteq> hasProblems other then (if hasProblems this then - 1 else 1)
      else if enumValueMatch this \<noteq> enumValueMatch other then
        (if enumValueMatch other then - 1 else 1)
      else if primaryValueMatches this \<noteq> primaryValueMatches other then
        primaryValueMatches this - primaryValueMatches other
      else if propertiesValueMatches this \<noteq> propertiesValueMatches other then
        propertiesValueMatches this - propertiesValueMatches other
      else propertiesMatches this - propertiesMatches other)"

text \<open>
  The ranking in the words of the specification, to compare \<open>compare\<close> with: a result is
  ranked by five keys in lexicographic order, namely having no problems, \<open>enumValueMatch\<close>,
  \<open>primaryValueMatches\<close>, \<open>propertiesValueMatches\<close> and \<open>propertiesMatches\<close>, the higher the
  better (\<open>False < True\<close>).
\<close>

definition rank :: "ValidationResult \<Rightarrow> bool \<times> bool \<times> int \<times> int \<times> int" where
  "rank r = (\<not> hasProblems r, enumValueMatch r, primaryValueMatches r,
             propertiesValueMatches r, propertiesMatches r)"

fun lexLess :: "bool \<times> bool \<times> int \<times> int \<times> int \<Rightarrow> bool \<times> bool \<times> int \<times> int \<times> int \<Rightarrow> bool" where
  "lexLess (a1, a2, a3, a4, a5) (b1, b2, b3, b4, b5) =
     (a1 < b1 \<or> a1 = b1 \<and> (a2 < b2 \<or> a2 = b2 \<and> (a3 < b3 \<or> a3 = b3 \<and>
        (a4 < b4 \<or> a4 = b4 \<and> a5 < b5))))"

section \<open>The syntax tree\<close>

text \<open>
  The header of \<^verbatim>\<open>ASTNodeImpl\<close>. \<open>ref\<close> stands for the identity of the JavaScript object:
  two nodes are the same object exactly when their \<open>ref\<close> agree (the collector compares a
  node with its \<^verbatim>\<open>exclude\<close> by \<^verbatim>\<open>!==\<close>). The \<^verbatim>\<open>parent\<close> field is not stored: the tree owns
  its children, and every function that reads \<^verbatim>\<open>node.parent\<close> receives the parent from the
  traversal that reached the node.
\<close>

record ASTNodeImpl =
  ref :: nat
  nodeOffset :: int
  nodeLength :: int

text \<open>
  The seven node classes. A property node holds its \<^verbatim>\<open>keyNode\<close> (a string node: header and
  value), its \<^verbatim>\<open>valueNode\<close>, which may be absent, and \<^verbatim>\<open>colonOffset\<close>. The properties of
  an object node are property nodes by their TypeScript type.
\<close>

datatype ASTNode =
    NullASTNode ASTNodeImpl
  | BooleanASTNode ASTNodeImpl bool
  | ArrayASTNode ASTNodeImpl "ASTNode list"
  | NumberASTNode ASTNodeImpl bool number
  | StringASTNode ASTNodeImpl string
  | PropertyASTNode ASTNodeImpl ASTNodeImpl string "ASTNode option" int
  | ObjectASTNode ASTNodeImpl "ASTNode list"

fun header :: "ASTNode \<Rightarrow> ASTNodeImpl" where
  "header (NullASTNode h) = h"
| "header (BooleanASTNode h b) = h"
| "header (ArrayASTNode h items) = h"
| "header (NumberASTNode h isInteger v) = h"
| "header (StringASTNode h v) = h"
| "header (PropertyASTNode h kh kv valueNode colonOffset) = h"
| "header (ObjectASTNode h properties) = h"

fun node_type :: "ASTNode \<Rightarrow> string" where
  "node_type (NullASTNode h) = ''null''"
| "node_type (BooleanASTNode h b) = ''boolean''"
| "node_type (ArrayASTNode h items) = ''array''"
| "node_type (NumberASTNode h isInteger v) = ''number''"
| "node_type (StringASTNode h v) = ''string''"
| "node_type (PropertyASTNode h kh kv valueNode colonOffset) = ''property''"
| "node_type (ObjectASTNode h properties) = ''object''"

fun children :: "ASTNode \<Rightarrow> ASTNode list" where
  "children (ArrayASTNode h items) = items"
| "children (PropertyASTNode h kh kv valueNode colonOffset) =
     (case valueNode of Some v \<Rightarrow> [StringASTNode kh kv, v] | None \<Rightarrow> [StringASTNode kh kv])"
| "children (ObjectASTNode h properties) = properties"
| "children _ = []"

text \<open>The number of nodes of a tree, key nodes included: the measure of every traversal.\<close>

fun nodes :: "ASTNode \<Rightarrow> nat" where
  "nodes (ArrayASTNode h items) = Suc (sum_list (map nodes items))"
| "nodes (PropertyASTNode h kh kv valueNode colonOffset) =
     Suc (Suc (case valueNode of Some v \<Rightarrow> nodes v | None \<Rightarrow> 0))"
| "nodes (ObjectASTNode h properties) = Suc (sum_list (map nodes properties))"
| "nodes _ = Suc 0"

lemma nodes_children: "nodes n = Suc (sum_list (map nodes (children n)))"
  by (cases n) (auto split: option.splits)

lemma nodes_child: "c \<in> set (children n) \<Longrightarrow> nodes c < nodes n"
  using member_le_sum_list [of "nodes c" "map nodes (children n)"]
  by (auto simp: nodes_children [of n] less_Suc_eq_le)

record JSONDocument =
  root :: "ASTNode option"

section \<open>The visitor\<close>

text \<open>
  \<^verbatim>\<open>visit(visitor)\<close>. The visitor is a JavaScript closure: it may keep a state of its own,
  which is threaded through the calls. \<open>doVisit\<close> is the inner function; \<open>doVisitChildren\<close>
  is its \<^verbatim>\<open>for\<close> loop over \<^verbatim>\<open>node.children\<close>, which runs while \<^verbatim>\<open>ctn\<close> holds.
\<close>

function doVisit :: "(ASTNode \<Rightarrow> 's \<Rightarrow> bool \<times> 's) \<Rightarrow> ASTNode \<Rightarrow> 's \<Rightarrow> bool \<times> 's"
  and doVisitChildren ::
    "(ASTNode \<Rightarrow> 's \<Rightarrow> bool \<times> 's) \<Rightarrow> ASTNode list \<Rightarrow> bool \<Rightarrow> 's \<Rightarrow> bool \<times> 's" where
  "doVisit visitor node s =
     (case visitor node s of (ctn, s') \<Rightarrow> doVisitChildren visitor (children node) ctn s')"
| "doVisitChildren visitor [] ctn s = (ctn, s)"
| "doVisitChildren visitor (c # cs) ctn s =
     (if ctn then (case doVisit visitor c s of (ctn', s') \<Rightarrow> doVisitChildren visitor cs ctn' s')
      else (ctn, s))"
  by pat_completeness auto
termination
  by (relation "measure (\<lambda>x. case x of
          Inl (v, n, s) \<Rightarrow> 2 * nodes n
        | Inr (v, cs, ctn, s) \<Rightarrow> Suc (2 * sum_list (map nodes cs)))")
     (auto simp: nodes_children)

definition visit :: "JSONDocument \<Rightarrow> (ASTNode \<Rightarrow> 's \<Rightarrow> bool \<times> 's) \<Rightarrow> 's \<Rightarrow> 's" where
  "visit this visitor s = (case root this of Some r \<Rightarrow> snd (doVisit visitor r s) | None \<Rightarrow> s)"

text \<open>The nodes of a tree in pre-order, and a visitor run along a list until it says stop.\<close>

function preorder :: "ASTNode \<Rightarrow> ASTNode list" where
  "preorder n = n # concat (map preorder (children n))"
  by pat_completeness auto
termination
  by (relation "measure nodes") (auto simp: nodes_child)

fun visitList :: "(ASTNode \<Rightarrow> 's \<Rightarrow> bool \<times> 's) \<Rightarrow> ASTNode list \<Rightarrow> 's \<Rightarrow> bool \<times> 's" where
  "visitList visitor [] s = (True, s)"
| "visitList visitor (n # ns) s =
     (case visitor n s of (ctn, s') \<Rightarrow> if ctn then visitList visitor ns s' else (False, s'))"

text \<open>A visitor that answers by a predicate on the node and records the nodes it is called on.\<close>

definition tracing :: "(ASTNode \<Rightarrow> bool) \<Rightarrow> ASTNode \<Rightarrow> ASTNode list \<Rightarrow> bool \<times> ASTNode list" where
  "tracing p n visited = (p n, visited @ [n])"

definition visited :: "JSONDocument \<Rightarrow> (ASTNode \<Rightarrow> bool) \<Rightarrow> ASTNode list" where
  "visited doc p = visit doc (tracing p) []"

declare preorder.simps [simp del]
declare doVisit.simps [simp del]

lemma visitList_append:
  "visitList v (xs @ ys) s =
     (case visitList v xs s of (ctn, s') \<Rightarrow> if ctn then visitList v ys s' else (False, s'))"
  by (induction xs arbitrary: s) (auto split: prod.splits)

lemma doVisit_visitList:
  "doVisit v n s = visitList v (preorder n) s"
  "doVisitChildren v cs ctn s =
     (if ctn then visitList v (concat (map preorder cs)) s else (False, s))"
proof (induction v n s and v cs ctn s rule: doVisit_doVisitChildren.induct)
  case (1 visitor node s)
  then show ?case
    by (subst preorder.simps) (auto simp: doVisit.simps split: prod.splits)
next
  case (2 visitor ctn s)
  then show ?case by simp
next
  case (3 visitor c cs ctn s)
  then show ?case
    by (auto simp: visitList_append split: prod.splits)
qed

section \<open>Values of nodes\<close>

text \<open>
  \<^verbatim>\<open>getNodeValue\<close> of the external package jsonc-parser, which the validator calls for
  \<^verbatim>\<open>enum\<close>, \<^verbatim>\<open>const\<close> and \<^verbatim>\<open>uniqueItems\<close>: the JavaScript value that a node denotes. An
  object takes the properties that have a value node, a later duplicate of a key replacing
  the value of the earlier one; a property node by itself denotes \<^verbatim>\<open>undefined\<close>. The
  validator compares these values and never enumerates their keys, so the order in which
  the object lists its keys does not matter here.
\<close>

fun assign :: "(string \<times> jsval) list \<Rightarrow> string \<Rightarrow> jsval \<Rightarrow> (string \<times> jsval) list" where
  "assign [] k v = [(k, v)]"
| "assign ((k', v') # kvs) k v = (if k' = k then (k', v) # kvs else (k', v') # assign kvs k v)"

fun getNodeValue :: "ASTNode \<Rightarrow> jsval" where
  "getNodeValue (NullASTNode h) = JNull"
| "getNodeValue (BooleanASTNode h b) = JBool b"
| "getNodeValue (NumberASTNode h isInteger v) = JNum v"
| "getNodeValue (StringASTNode h v) = JStr v"
| "getNodeValue (ArrayASTNode h items) = JArr (map getNodeValue items)"
| "getNodeValue (ObjectASTNode h properties) =
     JObj (foldl (\<lambda>obj prop. case prop of
                    PropertyASTNode ph kh key (Some valueNode) c \<Rightarrow>
                      assign obj key (getNodeValue valueNode)
                  | _ \<Rightarrow> obj) [] properties)"
| "getNodeValue (PropertyASTNode h kh kv valueNode c) = JUndefined"

section \<open>The schema collector\<close>

text \<open>
  An applicable-schema record. \<open>inverted\<close> is \<open>None\<close> while the field is \<^verbatim>\<open>undefined\<close> (the
  record as \<^verbatim>\<open>add({ node, schema })\<close> makes it). \<open>notsCrossed\<close> is an auxiliary field that
  the source does not have and that nothing reads (lemma \<open>validate_counter_inert\<close> below): the
  number of \<^verbatim>\<open>not\<close> keywords between the schema of the outermost call of \<open>validate\<close> and
  the schema of the record, as counted on the way down by the parameter \<open>nots\<close> of
  \<open>validate\<close>.
\<close>

record IApplicableSchema =
  appNode :: ASTNode
  inverted :: "bool option"
  appSchema :: jsval
  notsCrossed :: nat

text \<open>The two implementations of \<^verbatim>\<open>ISchemaCollector\<close>: the recording collector with its
  \<^verbatim>\<open>focusOffset\<close>, \<^verbatim>\<open>exclude\<close> and \<^verbatim>\<open>schemas\<close>, and the collector that records nothing.\<close>

datatype ISchemaCollector =
    SchemaCollector int "ASTNode option" "IApplicableSchema list"
  | NoOpSchemaCollector

definition contains :: "ASTNode \<Rightarrow> int \<Rightarrow> bool \<Rightarrow> bool" where
  "contains node off includeRightBound =
     (off \<ge> nodeOffset (header node) \<and> off < nodeOffset (header node) + nodeLength (header node)
      \<or> includeRightBound \<and> off = nodeOffset (header node) + nodeLength (header node))"

fun schemas :: "ISchemaCollector \<Rightarrow> IApplicableSchema list" where
  "schemas (SchemaCollector focusOffset exclude ss) = ss"
| "schemas NoOpSchemaCollector = []"

fun collector_add :: "ISchemaCollector \<Rightarrow> IApplicableSchema \<Rightarrow> ISchemaCollector" where
  "collector_add (SchemaCollector focusOffset exclude ss) s = SchemaCollector focusOffset exclude (ss @ [s])"
| "collector_add NoOpSchemaCollector s = NoOpSchemaCollector"

fun collector_merge :: "ISchemaCollector \<Rightarrow> ISchemaCollector \<Rightarrow> ISchemaCollector" where
  "collector_merge (SchemaCollector focusOffset exclude ss) other =
     SchemaCollector focusOffset exclude (ss @ schemas other)"
| "collector_merge NoOpSchemaCollector other = NoOpSchemaCollector"

fun collector_include :: "ISchemaCollector \<Rightarrow> ASTNode \<Rightarrow> bool" where
  "collector_include (SchemaCollector focusOffset exclude ss) node =
     ((focusOffset = - 1 \<or> contains node focusOffset False) \<and>
      (case exclude of None \<Rightarrow> True | Some x \<Rightarrow> ref (header node) \<noteq> ref (header x)))"
| "collector_include NoOpSchemaCollector node = True"

fun newSub :: "ISchemaCollector \<Rightarrow> ISchemaCollector" where
  "newSub (SchemaCollector focusOffset exclude ss) = SchemaCollector (- 1) exclude []"
| "newSub NoOpSchemaCollector = NoOpSchemaCollector"

section \<open>Exceptions and external collaborators\<close>

text \<open>
  The exceptions that the validator can raise: the \<^verbatim>\<open>TypeError\<close> of reading a property of
  \<^verbatim>\<open>undefined\<close> or \<^verbatim>\<open>null\<close>, and the \<^verbatim>\<open>SyntaxError\<close> of \<^verbatim>\<open>new RegExp\<close> on a pattern that is
  no regular expression. A function that can raise returns \<open>Inl\<close> of the exception.
\<close>

datatype error = TypeError | SyntaxError

definition bindE :: "'e + 'a \<Rightarrow> ('a \<Rightarrow> 'e + 'b) \<Rightarrow> 'e + 'b" where
  "bindE m f = (case m of Inl e \<Rightarrow> Inl e | Inr x \<Rightarrow> f x)"

fun foldE :: "('a \<Rightarrow> 's \<Rightarrow> 'e + 's) \<Rightarrow> 'a list \<Rightarrow> 's \<Rightarrow> 'e + 's" where
  "foldE f [] s = Inr s"
| "foldE f (x # xs) s = bindE (f x s) (foldE f xs)"

fun someE :: "('a \<Rightarrow> 'e + bool) \<Rightarrow> 'a list \<Rightarrow> 'e + bool" where
  "someE f [] = Inr False"
| "someE f (x # xs) = bindE (f x) (\<lambda>b. if b then Inr True else someE f xs)"

text \<open>
  What the validator takes from its environment: the regular expression engine
  (\<^verbatim>\<open>new RegExp(p)\<close> raises or gives a regular expression, of which only \<^verbatim>\<open>test\<close> is used),
  the two regular expression literals of the module, \<^verbatim>\<open>Uri.parse\<close> of vscode-uri (the
  message of its exception, or the scheme of the URI) and the conversion of a number to a
  property key.
\<close>

record Env =
  RegExp_new :: "string \<Rightarrow> error + (string \<Rightarrow> bool)"
  emailPattern :: "string \<Rightarrow> bool"
  colorHexPattern :: "string \<Rightarrow> bool"
  Uri_parse :: "string \<Rightarrow> string + string"
  Number_toString :: "number \<Rightarrow> string"

text \<open>The conversion of a value to a property key, for \<^verbatim>\<open>seenKeys[propertyName]\<close>.\<close>

fun join :: "string list \<Rightarrow> string" where
  "join [] = []"
| "join [x] = x"
| "join (x # xs) = x @ '','' @ join xs"

fun toPropertyKey :: "Env \<Rightarrow> jsval \<Rightarrow> string" where
  "toPropertyKey env (JStr s) = s"
| "toPropertyKey env JUndefined = ''undefined''"
| "toPropertyKey env JNull = ''null''"
| "toPropertyKey env (JBool b) = (if b then ''true'' else ''false'')"
| "toPropertyKey env (JNum n) = Number_toString env n"
| "toPropertyKey env (JArr xs) =
     join (map (\<lambda>x. if x = JNull \<or> x = JUndefined then [] else toPropertyKey env x) xs)"
| "toPropertyKey env (JObj kvs) = ''[object Object]''"

section \<open>Problems\<close>

definition push :: "ValidationResult \<Rightarrow> IProblem \<Rightarrow> ValidationResult" where
  "push validationResult p = validationResult\<lparr>problems := problems validationResult @ [p]\<rparr>"

definition warning :: "int \<Rightarrow> int \<Rightarrow> message \<Rightarrow> IProblem" where
  "warning off l m =
     \<lparr>location = \<lparr>offset = off, len = l\<rparr>, severity = Warning, code = None, message = m\<rparr>"

definition nodeWarning :: "ASTNodeImpl \<Rightarrow> message \<Rightarrow> IProblem" where
  "nodeWarning h m = warning (nodeOffset h) (nodeLength h) m"

text \<open>\<^verbatim>\<open>a || b || localize(...)\<close> on messages: the first value that is true, else the default.\<close>

fun orMessage :: "jsval list \<Rightarrow> message \<Rightarrow> message" where
  "orMessage [] m = m"
| "orMessage (v # vs) m = (if truthy v then FromSchema v else orMessage vs m)"

text \<open>\<^verbatim>\<open>isNumber(x) && P(x)\<close>.\<close>

definition numberWhere :: "jsval \<Rightarrow> (number \<Rightarrow> bool) \<Rightarrow> bool" where
  "numberWhere x P = (case x of JNum m \<Rightarrow> P m | _ \<Rightarrow> False)"

definition ofLength :: "'a list \<Rightarrow> number" where
  "ofLength xs = Finite (of_nat (length xs))"

section \<open>Numbers and strings\<close>

definition patternWarningText :: string where
  \<open>patternWarningText = ''String does not match the pattern of "{0}".''\<close>

definition getExclusiveLimit :: "jsval \<Rightarrow> jsval \<Rightarrow> jsval" where
  "getExclusiveLimit limit exclusive =
     (if isNumber exclusive then exclusive
      else if isBoolean exclusive \<and> truthy exclusive then limit
      else JUndefined)"

definition getLimit :: "jsval \<Rightarrow> jsval \<Rightarrow> jsval" where
  "getLimit limit exclusive =
     (if \<not> isBoolean exclusive \<or> \<not> truthy exclusive then limit else JUndefined)"

definition validateNumberNode ::
  "ASTNodeImpl \<Rightarrow> number \<Rightarrow> jsval \<Rightarrow> ValidationResult \<Rightarrow> ValidationResult" where
  "validateNumberNode h val schema validationResult =
     (let r1 = (if numberWhere (get schema ''multipleOf'')
                     (\<lambda>m. \<not> num_eq (js_rem val m) (Finite 0))
                then push validationResult (nodeWarning h
                       (Localize ''multipleOfWarning'' ''Value is not divisible by {0}.''
                          [Raw (get schema ''multipleOf'')]))
                else validationResult);
          exclusiveMinimum =
            getExclusiveLimit (get schema ''minimum'') (get schema ''exclusiveMinimum'');
          r2 = (if numberWhere exclusiveMinimum (\<lambda>m. num_le val m)
                then push r1 (nodeWarning h
                       (Localize ''exclusiveMinimumWarning''
                          ''Value is below the exclusive minimum of {0}.'' [Raw exclusiveMinimum]))
                else r1);
          exclusiveMaximum =
            getExclusiveLimit (get schema ''maximum'') (get schema ''exclusiveMaximum'');
          r3 = (if numberWhere exclusiveMaximum (\<lambda>m. num_ge val m)
                then push r2 (nodeWarning h
                       (Localize ''exclusiveMaximumWarning''
                          ''Value is above the exclusive maximum of {0}.'' [Raw exclusiveMaximum]))
                else r2);
          minimum = getLimit (get schema ''minimum'') (get schema ''exclusiveMinimum'');
          r4 = (if numberWhere minimum (\<lambda>m. num_lt val m)
                then push r3 (nodeWarning h
                       (Localize ''minimumWarning'' ''Value is below the minimum of {0}.''
                          [Raw minimum]))
                else r3);
          maximum = getLimit (get schema ''maximum'') (get schema ''exclusiveMaximum'')
      in if numberWhere maximum (\<lambda>m. num_gt val m)
         then push r4 (nodeWarning h
                (Localize ''maximumWarning'' ''Value is above the maximum of {0}.'' [Raw maximum]))
         else r4)"

definition validateStringNode ::
  "Env \<Rightarrow> ASTNodeImpl \<Rightarrow> string \<Rightarrow> jsval \<Rightarrow> ValidationResult \<Rightarrow> error + ValidationResult" where
  "validateStringNode env h val schema validationResult =
     (let r1 = (if numberWhere (get schema ''minLength'') (\<lambda>m. num_lt (ofLength val) m)
                then push validationResult (nodeWarning h
                       (Localize ''minLengthWarning''
                          ''String is shorter than the minimum length of {0}.''
                          [Raw (get schema ''minLength'')]))
                else validationResult);
          r2 = (if numberWhere (get schema ''maxLength'') (\<lambda>m. num_gt (ofLength val) m)
                then push r1 (nodeWarning h
                       (Localize ''maxLengthWarning''
                          ''String is longer than the maximum length of {0}.''
                          [Raw (get schema ''maxLength'')]))
                else r1);
          custom = [get schema ''patternErrorMessage'', get schema ''errorMessage'']
      in bindE
           (case get schema ''pattern'' of
              JStr pattern \<Rightarrow>
                bindE (RegExp_new env pattern) (\<lambda>regex.
                  Inr (if \<not> regex val
                       then push r2 (nodeWarning h (orMessage custom
                              (Localize ''patternWarning''
                                 patternWarningText
                                 [Raw (get schema ''pattern'')])))
                       else r2))
            | _ \<Rightarrow> Inr r2)
           (\<lambda>r3. Inr
             (if \<not> truthy (get schema ''format'') then r3
              else if get schema ''format'' = JStr ''uri'' \<or>
                      get schema ''format'' = JStr ''uri-reference'' then
                (let errorMessage =
                       (if val = [] then Some (Nested (Localize ''uriEmpty'' ''URI expected.'' []))
                        else (case Uri_parse env val of
                                Inr scheme \<Rightarrow>
                                  if scheme = [] \<and> get schema ''format'' = JStr ''uri''
                                  then Some (Nested (Localize ''uriSchemeMissing''
                                               ''URI with a scheme is expected.'' []))
                                  else None
                              | Inl m \<Rightarrow> if m = [] then None else Some (Text m)))
                 in case errorMessage of
                      Some e \<Rightarrow> push r3 (nodeWarning h (orMessage custom
                                 (Localize ''uriFormatWarning'' ''String is not a URI: {0}'' [e])))
                    | None \<Rightarrow> r3)
              else if get schema ''format'' = JStr ''email'' then
                (if \<not> emailPattern env val
                 then push r3 (nodeWarning h (orMessage custom
                        (Localize ''emailFormatWarning'' ''String is not an e-mail address.'' [])))
                 else r3)
              else if get schema ''format'' = JStr ''color-hex'' then
                (if \<not> colorHexPattern env val
                 then push r3 (nodeWarning h (orMessage custom
                        (Localize ''colorHexFormatWarning''
                           ''Invalid color format. Use #RGB, #RGBA, #RRGGBB or #RRGGBBAA.'' [])))
                 else r3)
              else r3)))"

text \<open>The number of problems of a result whose message was localized under a given key.\<close>

definition warnings :: "string \<Rightarrow> ValidationResult \<Rightarrow> nat" where
  "warnings key r =
     length (filter (\<lambda>p. case message p of Localize k t args \<Rightarrow> k = key | _ \<Rightarrow> False)
               (problems r))"

section \<open>The validator\<close>

text \<open>
  \<^verbatim>\<open>validate(node, schema, validationResult, matchingSchemas)\<close> mutates its last two
  arguments; here it returns them. It has two more parameters than the source: \<open>parent\<close>,
  the value of \<^verbatim>\<open>node.parent\<close>, and the auxiliary counter \<open>nots\<close> (see \<open>notsCrossed\<close>).
  The validators of the node types and the combinators are closures inside \<^verbatim>\<open>validate\<close>
  that call it back; each takes the function to call back as its parameter \<open>v\<close>.
\<close>

type_synonym vstate = "ValidationResult \<times> ISchemaCollector"

type_synonym validator =
  "nat \<Rightarrow> ASTNode option \<Rightarrow> ASTNode option \<Rightarrow> jsval \<Rightarrow> ValidationResult \<Rightarrow> ISchemaCollector
     \<Rightarrow> error + vstate"

text \<open>The idiom \<^verbatim>\<open>let r = new ValidationResult(); validate(child, schema, r, matchingSchemas);
  validationResult.mergePropertyMatch(r)\<close>.\<close>

definition validateInto ::
  "validator \<Rightarrow> nat \<Rightarrow> ASTNode option \<Rightarrow> ASTNode option \<Rightarrow> jsval \<Rightarrow> vstate \<Rightarrow> error + vstate" where
  "validateInto v nots parent child schema s =
     bindE (v nots parent child schema new_ValidationResult (snd s))
       (\<lambda>sub. Inr (mergePropertyMatch (fst s) (fst sub), snd sub))"

definition bumpPropertiesValueMatches :: "ValidationResult \<Rightarrow> ValidationResult" where
  "bumpPropertiesValueMatches r = r\<lparr>propertiesValueMatches := propertiesValueMatches r + 1\<rparr>"

definition bumpPropertiesMatches :: "ValidationResult \<Rightarrow> ValidationResult" where
  "bumpPropertiesMatches r = r\<lparr>propertiesMatches := propertiesMatches r + 1\<rparr>"

text \<open>\<^verbatim>\<open>validationResult.merge(sub); validationResult.propertiesMatches += sub.propertiesMatches;
  validationResult.propertiesValueMatches += sub.propertiesValueMatches\<close>.\<close>

definition mergeWithScores :: "ValidationResult \<Rightarrow> ValidationResult \<Rightarrow> ValidationResult" where
  "mergeWithScores validationResult sub =
     (merge validationResult sub)
       \<lparr>propertiesMatches := propertiesMatches validationResult + propertiesMatches sub,
        propertiesValueMatches :=
          propertiesValueMatches validationResult + propertiesValueMatches sub\<rparr>"

subsection \<open>Arrays\<close>

text \<open>
  \<^verbatim>\<open>values.lastIndexOf(value)\<close> on the array that \<^verbatim>\<open>getNodeValue\<close> has just built: it compares
  with \<^verbatim>\<open>===\<close>, which is equality of value on primitives and identity on arrays and objects.
  Every array and object in \<^verbatim>\<open>values\<close> is a fresh one, identical to itself only.
\<close>

fun composite :: "jsval \<Rightarrow> bool" where
  "composite (JArr xs) = True"
| "composite (JObj kvs) = True"
| "composite _ = False"

fun strictEquals :: "jsval \<Rightarrow> jsval \<Rightarrow> bool" where
  "strictEquals (JNum a) (JNum b) = num_eq a b"
| "strictEquals (JStr a) (JStr b) = (a = b)"
| "strictEquals (JBool a) (JBool b) = (a = b)"
| "strictEquals JNull JNull = True"
| "strictEquals JUndefined JUndefined = True"
| "strictEquals _ _ = False"

definition identical :: "jsval list \<Rightarrow> nat \<Rightarrow> nat \<Rightarrow> bool" where
  "identical values i j =
     (if composite (values ! i) then i = j else strictEquals (values ! i) (values ! j))"

definition lastIndexOf :: "jsval list \<Rightarrow> nat \<Rightarrow> int" where
  "lastIndexOf values i =
     (case filter (identical values i) (rev [0..<length values]) of
        [] \<Rightarrow> - 1
      | j # js \<Rightarrow> int j)"

definition uniqueItemsWarning :: message where
  "uniqueItemsWarning = Localize ''uniqueItemsWarning'' ''Array has duplicate items.'' []"

definition checkUniqueItems ::
  "ASTNodeImpl \<Rightarrow> ASTNode list \<Rightarrow> jsval \<Rightarrow> ValidationResult \<Rightarrow> ValidationResult" where
  "checkUniqueItems h items schema validationResult =
     (if get schema ''uniqueItems'' = JBool True then
        (let values = elems (getNodeValue (ArrayASTNode h items));
             duplicates = list_ex (\<lambda>index. int index \<noteq> lastIndexOf values index)
                            [0..<length values]
         in if duplicates then push validationResult (nodeWarning h uniqueItemsWarning)
            else validationResult)
      else validationResult)"

definition checkItemCounts ::
  "ASTNodeImpl \<Rightarrow> ASTNode list \<Rightarrow> jsval \<Rightarrow> ValidationResult \<Rightarrow> ValidationResult" where
  "checkItemCounts h items schema validationResult =
     (let r1 = (if numberWhere (get schema ''minItems'') (\<lambda>m. num_lt (ofLength items) m)
                then push validationResult (nodeWarning h
                       (Localize ''minItemsWarning''
                          ''Array has too few items. Expected {0} or more.''
                          [Raw (get schema ''minItems'')]))
                else validationResult)
      in if numberWhere (get schema ''maxItems'') (\<lambda>m. num_gt (ofLength items) m)
         then push r1 (nodeWarning h
                (Localize ''maxItemsWarning''
                   ''Array has too many items. Expected {0} or fewer.''
                   [Raw (get schema ''maxItems'')]))
         else r1)"

text \<open>\<^verbatim>\<open>_validateArrayNode\<close>, in three parts: \<^verbatim>\<open>items\<close> with \<^verbatim>\<open>additionalItems\<close>, then
  \<^verbatim>\<open>contains\<close>, then the counts and \<^verbatim>\<open>uniqueItems\<close>.\<close>

definition validateItems ::
  "validator \<Rightarrow> nat \<Rightarrow> ASTNode \<Rightarrow> jsval \<Rightarrow> vstate \<Rightarrow> error + vstate" where
  "validateItems v nots node schema s0 =
     (let h = header node; items = children node in
      if isArray (get schema ''items'') then
        (let subSchemas = elems (get schema ''items'') in
         bindE
           (foldE (\<lambda>index s.
               if index < length items
               then validateInto v nots (Some node) (Some (items ! index))
                      (asSchema (subSchemas ! index)) s
               else if length items \<ge> length subSchemas
               then Inr (bumpPropertiesValueMatches (fst s), snd s)
               else Inr s)
             [0..<length subSchemas] s0)
           (\<lambda>s.
              if length items > length subSchemas then
                (if typeof_object (get schema ''additionalItems'') then
                   foldE (\<lambda>i. validateInto v nots (Some node) (Some (items ! i))
                                (get schema ''additionalItems''))
                     [length subSchemas..<length items] s
                 else if get schema ''additionalItems'' = JBool False then
                   Inr (push (fst s) (nodeWarning h
                          (Localize ''additionalItemsWarning''
                             ''Array has too many items according to schema. Expected {0} or fewer.''
                             [Raw (JNum (ofLength subSchemas))])), snd s)
                 else Inr s)
              else Inr s))
      else
        (let itemSchema = asSchema (get schema ''items'') in
         if truthy itemSchema then
           foldE (\<lambda>item. validateInto v nots (Some node) (Some item) itemSchema) items s0
         else Inr s0))"

definition validateContains ::
  "validator \<Rightarrow> nat \<Rightarrow> ASTNode \<Rightarrow> jsval \<Rightarrow> ValidationResult \<Rightarrow> error + ValidationResult" where
  "validateContains v nots node schema validationResult =
     (let containsSchema = asSchema (get schema ''contains'') in
      if truthy containsSchema then
        bindE
          (someE (\<lambda>item.
              bindE (v nots (Some node) (Some item) containsSchema new_ValidationResult
                       NoOpSchemaCollector)
                (\<lambda>t. Inr (\<not> hasProblems (fst t))))
            (children node))
          (\<lambda>doesContain.
             Inr (if \<not> doesContain
                  then push validationResult (nodeWarning (header node)
                         (orMessage [get schema ''errorMessage'']
                            (Localize ''requiredItemMissingWarning''
                               ''Array does not contain required item.'' [])))
                  else validationResult))
      else Inr validationResult)"

definition validateArrayNode ::
  "validator \<Rightarrow> nat \<Rightarrow> ASTNode \<Rightarrow> jsval \<Rightarrow> ValidationResult \<Rightarrow> ISchemaCollector
     \<Rightarrow> error + vstate" where
  "validateArrayNode v nots node schema validationResult matchingSchemas =
     bindE (validateItems v nots node schema (validationResult, matchingSchemas)) (\<lambda>s.
     bindE (validateContains v nots node schema (fst s)) (\<lambda>r.
       Inr (checkUniqueItems (header node) (children node) schema
              (checkItemCounts (header node) (children node) schema r), snd s)))"

subsection \<open>Objects\<close>

text \<open>
  \<^verbatim>\<open>seenKeys\<close> maps a key to the value node of the property, a later property replacing an
  earlier one of the same key; an absent value node is stored as \<^verbatim>\<open>undefined\<close>, which every
  reader of \<^verbatim>\<open>seenKeys\<close> treats as a missing key. The model keeps the property node with the
  value node, for the reads of \<^verbatim>\<open>child.parent\<close>.

  The merge key: under \<^verbatim>\<open>key === "<<" && propertyNode.valueNode\<close> the source reads
  \<^verbatim>\<open>propertyNode.value["properties"]\<close> (for an object value) or
  \<^verbatim>\<open>propertyNode.value["items"]\<close> (for an array value). A property node has the fields
  \<^verbatim>\<open>keyNode\<close>, \<^verbatim>\<open>valueNode\<close> and \<^verbatim>\<open>colonOffset\<close> and no field \<^verbatim>\<open>value\<close>, so
  \<^verbatim>\<open>propertyNode.value\<close> is \<^verbatim>\<open>undefined\<close> and the read of its property raises a TypeError.
  An element of \<^verbatim>\<open>properties\<close> that is no property node has no \<^verbatim>\<open>keyNode\<close>; the read
  \<^verbatim>\<open>propertyNode.keyNode.value\<close> raises a TypeError as well.
\<close>

type_synonym seen = "string \<Rightarrow> (ASTNode \<times> ASTNode) option"

definition collectProperty ::
  "ASTNode \<Rightarrow> seen \<times> string list \<Rightarrow> error + (seen \<times> string list)" where
  "collectProperty propertyNode s =
     (case propertyNode of
        PropertyASTNode ph kh key valueNode c \<Rightarrow>
          if key = ''<<'' \<and> valueNode \<noteq> None then
            (case valueNode of
               Some (ObjectASTNode oh ps) \<Rightarrow> Inl TypeError
             | Some (ArrayASTNode ah xs) \<Rightarrow> Inl TypeError
             | _ \<Rightarrow> Inr s)
          else Inr ((fst s)(key := map_option (\<lambda>child. (propertyNode, child)) valueNode),
                    snd s @ [key])
      | _ \<Rightarrow> Inl TypeError)"

definition missingRequiredPropText :: string where
  \<open>missingRequiredPropText = ''Missing property "{0}".''\<close>

definition checkRequired ::
  "Env \<Rightarrow> ASTNode option \<Rightarrow> ASTNodeImpl \<Rightarrow> jsval \<Rightarrow> seen \<Rightarrow> ValidationResult \<Rightarrow> ValidationResult" where
  "checkRequired env parent h schema seenKeys validationResult =
     (if isArray (get schema ''required'') then
        foldl (\<lambda>r propertyName.
            if seenKeys (toPropertyKey env propertyName) = None then
              push r
                (case parent of
                   Some (PropertyASTNode ph kh kv valueNode c) \<Rightarrow>
                     warning (nodeOffset kh) (nodeLength kh)
                       (Localize ''MissingRequiredPropWarning'' missingRequiredPropText
                          [Raw propertyName])
                 | _ \<Rightarrow>
                     warning (nodeOffset h) 1
                       (Localize ''MissingRequiredPropWarning'' missingRequiredPropText
                          [Raw propertyName]))
            else r)
          validationResult (elems (get schema ''required''))
      else validationResult)"

definition propertyProcessed :: "string \<Rightarrow> string list \<Rightarrow> string list" where
  "propertyProcessed prop unprocessedProperties = filter (\<lambda>x. x \<noteq> prop) unprocessedProperties"

fun keyHeader :: "ASTNode \<Rightarrow> ASTNodeImpl" where
  "keyHeader (PropertyASTNode ph kh kv valueNode c) = kh"
| "keyHeader n = header n"

definition disallowedWarning :: "jsval \<Rightarrow> ASTNode \<Rightarrow> string \<Rightarrow> IProblem" where
  "disallowedWarning schema propertyNode propertyName =
     nodeWarning (keyHeader propertyNode)
       (orMessage [get schema ''errorMessage'']
          (Localize ''DisallowedExtraPropWarning'' ''Property {0} is not allowed.''
             [Raw (JStr propertyName)]))"

text \<open>What \<^verbatim>\<open>properties\<close> and \<^verbatim>\<open>patternProperties\<close> do with a key that the object has.\<close>

definition validateMatched ::
  "validator \<Rightarrow> nat \<Rightarrow> jsval \<Rightarrow> string \<Rightarrow> jsval \<Rightarrow> ASTNode \<times> ASTNode \<Rightarrow> vstate
     \<Rightarrow> error + vstate" where
  "validateMatched v nots schema propertyName propertySchema pc s =
     (case propertySchema of
        JBool b \<Rightarrow>
          if \<not> b then Inr (push (fst s) (disallowedWarning schema (fst pc) propertyName), snd s)
          else Inr (bumpPropertiesValueMatches (bumpPropertiesMatches (fst s)), snd s)
      | _ \<Rightarrow> validateInto v nots (Some (fst pc)) (Some (snd pc)) propertySchema s)"

definition validateProperties ::
  "validator \<Rightarrow> nat \<Rightarrow> jsval \<Rightarrow> seen \<Rightarrow> string list \<times> vstate \<Rightarrow> error + (string list \<times> vstate)" where
  "validateProperties v nots schema seenKeys s0 =
     (if truthy (get schema ''properties'') then
        foldE (\<lambda>propertyName s.
            let unprocessed = propertyProcessed propertyName (fst s);
                propertySchema = get (get schema ''properties'') propertyName
            in case seenKeys propertyName of
                 Some pc \<Rightarrow>
                   bindE (validateMatched v nots schema propertyName propertySchema pc (snd s))
                     (\<lambda>t. Inr (unprocessed, t))
               | None \<Rightarrow> Inr (unprocessed, snd s))
          (Object_keys (get schema ''properties'')) s0
      else Inr s0)"

text \<open>The inner loop of \<^verbatim>\<open>patternProperties\<close>, over a snapshot of the unprocessed keys.\<close>

definition validatePattern ::
  "validator \<Rightarrow> nat \<Rightarrow> jsval \<Rightarrow> seen \<Rightarrow> string \<Rightarrow> (string \<Rightarrow> bool) \<Rightarrow> string list \<times> vstate
     \<Rightarrow> error + (string list \<times> vstate)" where
  "validatePattern v nots schema seenKeys propertyPattern regex s1 =
     foldE (\<lambda>propertyName s.
         if regex propertyName then
           (let unprocessed = propertyProcessed propertyName (fst s);
                propertySchema = get (get schema ''patternProperties'') propertyPattern
            in case seenKeys propertyName of
                 Some pc \<Rightarrow>
                   bindE (validateMatched v nots schema propertyName propertySchema pc (snd s))
                     (\<lambda>t. Inr (unprocessed, t))
               | None \<Rightarrow> Inr (unprocessed, snd s))
         else Inr s)
       (fst s1) s1"

definition validatePatternProperties ::
  "validator \<Rightarrow> Env \<Rightarrow> nat \<Rightarrow> jsval \<Rightarrow> seen \<Rightarrow> string list \<times> vstate
     \<Rightarrow> error + (string list \<times> vstate)" where
  "validatePatternProperties v env nots schema seenKeys s0 =
     (if truthy (get schema ''patternProperties'') then
        foldE (\<lambda>propertyPattern s1.
            bindE (RegExp_new env propertyPattern) (\<lambda>regex.
              validatePattern v nots schema seenKeys propertyPattern regex s1))
          (Object_keys (get schema ''patternProperties'')) s0
      else Inr s0)"

definition validateAdditionalProperties ::
  "validator \<Rightarrow> nat \<Rightarrow> jsval \<Rightarrow> seen \<Rightarrow> string list \<Rightarrow> vstate \<Rightarrow> error + vstate" where
  "validateAdditionalProperties v nots schema seenKeys unprocessedProperties s0 =
     (if typeof_object (get schema ''additionalProperties'') then
        foldE (\<lambda>propertyName s.
            case seenKeys propertyName of
              Some pc \<Rightarrow>
                validateInto v nots (Some (fst pc)) (Some (snd pc))
                  (get schema ''additionalProperties'') s
            | None \<Rightarrow> Inr s)
          unprocessedProperties s0
      else if get schema ''additionalProperties'' = JBool False then
        (if length unprocessedProperties > 0 then
           Inr (foldl (\<lambda>r propertyName.
                   case seenKeys propertyName of
                     Some pc \<Rightarrow> push r (disallowedWarning schema (fst pc) propertyName)
                   | None \<Rightarrow> r)
                 (fst s0) unprocessedProperties, snd s0)
         else Inr s0)
      else Inr s0)"

definition checkPropertyCounts ::
  "ASTNodeImpl \<Rightarrow> ASTNode list \<Rightarrow> jsval \<Rightarrow> ValidationResult \<Rightarrow> ValidationResult" where
  "checkPropertyCounts h properties schema validationResult =
     (let r1 = (if numberWhere (get schema ''maxProperties'') (\<lambda>m. num_gt (ofLength properties) m)
                then push validationResult (nodeWarning h
                       (Localize ''MaxPropWarning''
                          ''Object has more properties than limit of {0}.''
                          [Raw (get schema ''maxProperties'')]))
                else validationResult)
      in if numberWhere (get schema ''minProperties'') (\<lambda>m. num_lt (ofLength properties) m)
         then push r1 (nodeWarning h
                (Localize ''MinPropWarning''
                   ''Object has fewer properties than the required number of {0}''
                   [Raw (get schema ''minProperties'')]))
         else r1)"

definition validateDependencies ::
  "validator \<Rightarrow> Env \<Rightarrow> nat \<Rightarrow> ASTNode option \<Rightarrow> ASTNode \<Rightarrow> jsval \<Rightarrow> seen \<Rightarrow> vstate
     \<Rightarrow> error + vstate" where
  "validateDependencies v env nots parent node schema seenKeys s0 =
     (if truthy (get schema ''dependencies'') then
        foldE (\<lambda>key s.
            case seenKeys key of
              Some prop \<Rightarrow>
                (let propertyDep = get (get schema ''dependencies'') key in
                 if isArray propertyDep then
                   Inr (foldl (\<lambda>r requiredProp.
                           if seenKeys (toPropertyKey env requiredProp) = None then
                             push r (nodeWarning (header node)
                               (Localize ''RequiredDependentPropWarning''
                                  ''Object is missing property {0} required by property {1}.''
                                  [Raw requiredProp, Raw (JStr key)]))
                           else bumpPropertiesValueMatches r)
                         (fst s) (elems propertyDep), snd s)
                 else
                   (let propertySchema = asSchema propertyDep in
                    if truthy propertySchema
                    then validateInto v nots parent (Some node) propertySchema s
                    else Inr s))
            | None \<Rightarrow> Inr s)
          (Object_keys (get schema ''dependencies'')) s0
      else Inr s0)"

definition validatePropertyNames ::
  "validator \<Rightarrow> nat \<Rightarrow> ASTNode list \<Rightarrow> jsval \<Rightarrow> vstate \<Rightarrow> error + vstate" where
  "validatePropertyNames v nots properties schema s0 =
     (let propertyNames = asSchema (get schema ''propertyNames'') in
      if truthy propertyNames then
        foldE (\<lambda>f s.
            case f of
              PropertyASTNode ph kh kv valueNode c \<Rightarrow>
                bindE (v nots (Some f) (Some (StringASTNode kh kv)) propertyNames (fst s)
                         NoOpSchemaCollector)
                  (\<lambda>t. Inr (fst t, snd s))
            | _ \<Rightarrow> Inr s)
          properties s0
      else Inr s0)"

definition validateObjectNode ::
  "validator \<Rightarrow> Env \<Rightarrow> nat \<Rightarrow> ASTNode option \<Rightarrow> ASTNode \<Rightarrow> jsval \<Rightarrow> ValidationResult
     \<Rightarrow> ISchemaCollector \<Rightarrow> error + vstate" where
  "validateObjectNode v env nots parent node schema validationResult matchingSchemas =
     (let h = header node; properties = children node in
      bindE (foldE collectProperty properties (\<lambda>key. None, [])) (\<lambda>collected.
      bindE (validateProperties v nots schema (fst collected)
               (snd collected,
                checkRequired env parent h schema (fst collected) validationResult,
                matchingSchemas))
        (\<lambda>s1.
      bindE (validatePatternProperties v env nots schema (fst collected) s1) (\<lambda>s2.
      bindE (validateAdditionalProperties v nots schema (fst collected) (fst s2) (snd s2))
        (\<lambda>s3.
      bindE (validateDependencies v env nots parent node schema (fst collected)
               (checkPropertyCounts h properties schema (fst s3), snd s3)) (\<lambda>s4.
      validatePropertyNames v nots properties schema s4))))))"

subsection \<open>The keywords of every node type\<close>

fun isIntegerNode :: "ASTNode \<Rightarrow> bool" where
  "isIntegerNode (NumberASTNode h isInteger v) = isInteger"
| "isIntegerNode n = False"

definition matchesType :: "ASTNode \<Rightarrow> jsval \<Rightarrow> bool" where
  "matchesType node type =
     (type = JStr (node_type node) \<or>
      (type = JStr ''integer'' \<and> node_type node = ''number'' \<and> isIntegerNode node))"

definition typeMismatchText :: string where
  \<open>typeMismatchText = ''Incorrect type. Expected "{0}".''\<close>

definition checkType :: "ASTNode \<Rightarrow> jsval \<Rightarrow> ValidationResult \<Rightarrow> ValidationResult" where
  "checkType node schema validationResult =
     (if isArray (get schema ''type'') then
        (if \<not> list_ex (matchesType node) (elems (get schema ''type''))
         then push validationResult (nodeWarning (header node)
                (orMessage [get schema ''errorMessage'']
                   (Localize ''typeArrayMismatchWarning''
                      ''Incorrect type. Expected one of {0}.''
                      [Join (elems (get schema ''type''))])))
         else validationResult)
      else if truthy (get schema ''type'') then
        (if \<not> matchesType node (get schema ''type'')
         then push validationResult (nodeWarning (header node)
                (orMessage [get schema ''errorMessage'']
                   (Localize ''typeMismatchWarning'' typeMismatchText
                      [Raw (get schema ''type'')])))
         else validationResult)
      else validationResult)"

definition validateAllOf ::
  "validator \<Rightarrow> nat \<Rightarrow> ASTNode option \<Rightarrow> ASTNode \<Rightarrow> jsval \<Rightarrow> vstate \<Rightarrow> error + vstate" where
  "validateAllOf v nots parent node schema s0 =
     (if isArray (get schema ''allOf'') then
        foldE (\<lambda>subSchemaRef s. v nots parent (Some node) (asSchema subSchemaRef) (fst s) (snd s))
          (elems (get schema ''allOf'')) s0
      else Inr s0)"

text \<open>\<^verbatim>\<open>ms.inverted = !ms.inverted\<close>: the negation of \<^verbatim>\<open>undefined\<close> is \<^verbatim>\<open>true\<close>.\<close>

definition flipInverted :: "IApplicableSchema \<Rightarrow> IApplicableSchema" where
  "flipInverted ms = ms\<lparr>inverted := Some (case inverted ms of Some b \<Rightarrow> \<not> b | None \<Rightarrow> True)\<rparr>"

definition validateNot ::
  "validator \<Rightarrow> nat \<Rightarrow> ASTNode option \<Rightarrow> ASTNode \<Rightarrow> jsval \<Rightarrow> vstate \<Rightarrow> error + vstate" where
  "validateNot v nots parent node schema s0 =
     (let notSchema = asSchema (get schema ''not'') in
      if truthy notSchema then
        bindE (v (Suc nots) parent (Some node) notSchema new_ValidationResult (newSub (snd s0)))
          (\<lambda>sub.
             Inr (if \<not> hasProblems (fst sub)
                  then push (fst s0) (nodeWarning (header node)
                         (Localize ''notSchemaWarning''
                            ''Matches a schema that is not allowed.'' []))
                  else fst s0,
                  foldl (\<lambda>matchingSchemas ms. collector_add matchingSchemas (flipInverted ms))
                    (snd s0) (schemas (snd sub))))
      else Inr s0)"

text \<open>\<^verbatim>\<open>testAlternatives\<close>: \<open>matches\<close> and \<open>bestMatch\<close> are the two variables of its loop, and
  \<open>betterMatch\<close> is the body of the loop after the validation of the alternative.\<close>

type_synonym bestMatch = "(jsval \<times> ValidationResult \<times> ISchemaCollector) option"

definition betterMatch ::
  "bool \<Rightarrow> jsval \<Rightarrow> vstate \<Rightarrow> jsval list \<times> bestMatch \<Rightarrow> jsval list \<times> bestMatch" where
  "betterMatch maxOneMatch subSchema sub st =
     (let subValidationResult = fst sub; subMatchingSchemas = snd sub;
          matches = (if \<not> hasProblems subValidationResult then fst st @ [subSchema] else fst st)
      in (matches,
          case snd st of
            None \<Rightarrow> Some (subSchema, subValidationResult, subMatchingSchemas)
          | Some (bestSchema, bestResult, bestSchemas) \<Rightarrow>
              if \<not> maxOneMatch \<and> \<not> hasProblems subValidationResult \<and> \<not> hasProblems bestResult
              then Some (bestSchema,
                     bestResult
                       \<lparr>propertiesMatches :=
                          propertiesMatches bestResult + propertiesMatches subValidationResult,
                        propertiesValueMatches :=
                          propertiesValueMatches bestResult
                            + propertiesValueMatches subValidationResult\<rparr>,
                     collector_merge bestSchemas subMatchingSchemas)
              else (let compareResult = compare subValidationResult bestResult in
                    if compareResult > 0
                    then Some (subSchema, subValidationResult, subMatchingSchemas)
                    else if compareResult = 0
                    then Some (bestSchema, mergeEnumValues bestResult subValidationResult,
                           collector_merge bestSchemas subMatchingSchemas)
                    else Some (bestSchema, bestResult, bestSchemas))))"

definition testAlternatives ::
  "validator \<Rightarrow> nat \<Rightarrow> ASTNode option \<Rightarrow> ASTNode \<Rightarrow> jsval list \<Rightarrow> bool \<Rightarrow> vstate
     \<Rightarrow> error + vstate" where
  "testAlternatives v nots parent node alternatives maxOneMatch s0 =
     bindE
       (foldE (\<lambda>subSchemaRef st.
           bindE (v nots parent (Some node) (asSchema subSchemaRef) new_ValidationResult
                    (newSub (snd s0)))
             (\<lambda>sub. Inr (betterMatch maxOneMatch (asSchema subSchemaRef) sub st)))
          alternatives ([], None))
       (\<lambda>st.
          let r1 = (if length (fst st) > 1 \<and> maxOneMatch
                    then push (fst s0) (warning (nodeOffset (header node)) 1
                           (Localize ''oneOfWarning''
                              ''Matches multiple schemas when only one must validate.'' []))
                    else fst s0)
          in Inr (case snd st of
                    Some (bestSchema, bestResult, bestSchemas) \<Rightarrow>
                      (mergeWithScores r1 bestResult, collector_merge (snd s0) bestSchemas)
                  | None \<Rightarrow> (r1, snd s0)))"

definition validateAnyOf ::
  "validator \<Rightarrow> nat \<Rightarrow> ASTNode option \<Rightarrow> ASTNode \<Rightarrow> jsval \<Rightarrow> vstate \<Rightarrow> error + vstate" where
  "validateAnyOf v nots parent node schema s0 =
     (if isArray (get schema ''anyOf'')
      then testAlternatives v nots parent node (elems (get schema ''anyOf'')) False s0
      else Inr s0)"

definition validateOneOf ::
  "validator \<Rightarrow> nat \<Rightarrow> ASTNode option \<Rightarrow> ASTNode \<Rightarrow> jsval \<Rightarrow> vstate \<Rightarrow> error + vstate" where
  "validateOneOf v nots parent node schema s0 =
     (if isArray (get schema ''oneOf'')
      then testAlternatives v nots parent node (elems (get schema ''oneOf'')) True s0
      else Inr s0)"

definition testBranch ::
  "validator \<Rightarrow> nat \<Rightarrow> ASTNode option \<Rightarrow> ASTNode \<Rightarrow> jsval \<Rightarrow> vstate \<Rightarrow> error + vstate" where
  "testBranch v nots parent node schema s0 =
     bindE (v nots parent (Some node) (asSchema schema) new_ValidationResult (newSub (snd s0)))
       (\<lambda>sub. Inr (mergeWithScores (fst s0) (fst sub), collector_merge (snd s0) (snd sub)))"

definition testCondition ::
  "validator \<Rightarrow> nat \<Rightarrow> ASTNode option \<Rightarrow> ASTNode \<Rightarrow> jsval \<Rightarrow> jsval \<Rightarrow> jsval \<Rightarrow> vstate
     \<Rightarrow> error + vstate" where
  "testCondition v nots parent node ifSchema thenSchema elseSchema s0 =
     bindE (v nots parent (Some node) (asSchema ifSchema) new_ValidationResult (newSub (snd s0)))
       (\<lambda>sub.
          let s1 = (fst s0, collector_merge (snd s0) (snd sub)) in
          if \<not> hasProblems (fst sub) then
            (if truthy thenSchema then testBranch v nots parent node thenSchema s1 else Inr s1)
          else if truthy elseSchema then testBranch v nots parent node elseSchema s1
          else Inr s1)"

definition validateIf ::
  "validator \<Rightarrow> nat \<Rightarrow> ASTNode option \<Rightarrow> ASTNode \<Rightarrow> jsval \<Rightarrow> vstate \<Rightarrow> error + vstate" where
  "validateIf v nots parent node schema s0 =
     (let ifSchema = asSchema (get schema ''if'') in
      if truthy ifSchema
      then testCondition v nots parent node ifSchema (asSchema (get schema ''then''))
             (asSchema (get schema ''else'')) s0
      else Inr s0)"

definition enumProblem :: "ASTNode \<Rightarrow> message \<Rightarrow> IProblem" where
  "enumProblem node m = (nodeWarning (header node) m)\<lparr>code := Some EnumValueMismatch\<rparr>"

definition checkEnum :: "ASTNode \<Rightarrow> jsval \<Rightarrow> ValidationResult \<Rightarrow> ValidationResult" where
  "checkEnum node schema validationResult =
     (if isArray (get schema ''enum'') then
        (let val = getNodeValue node;
             matched = list_ex (equals val) (elems (get schema ''enum''));
             r1 = validationResult\<lparr>enumValues := Some (elems (get schema ''enum'')),
                                    enumValueMatch := matched\<rparr>
         in if \<not> matched
            then push r1 (enumProblem node
                   (orMessage [get schema ''errorMessage'']
                      (enumWarning (elems (get schema ''enum'')))))
            else r1)
      else validationResult)"

definition checkConst :: "ASTNode \<Rightarrow> jsval \<Rightarrow> ValidationResult \<Rightarrow> ValidationResult" where
  "checkConst node schema validationResult =
     (if isDefined (get schema ''const'') then
        (let val = getNodeValue node;
             r1 = (if \<not> equals val (get schema ''const'')
                   then (push validationResult (enumProblem node
                           (orMessage [get schema ''errorMessage'']
                              (Localize ''constWarning'' ''Value must be {0}.''
                                 [Stringify (get schema ''const'')]))))
                          \<lparr>enumValueMatch := False\<rparr>
                   else validationResult\<lparr>enumValueMatch := True\<rparr>)
         in r1\<lparr>enumValues := Some [get schema ''const'']\<rparr>)
      else validationResult)"

definition checkDeprecation ::
  "ASTNode option \<Rightarrow> jsval \<Rightarrow> ValidationResult \<Rightarrow> ValidationResult" where
  "checkDeprecation parent schema validationResult =
     (if truthy (get schema ''deprecationMessage'') then
        (case parent of
           Some p \<Rightarrow> push validationResult
                       (nodeWarning (header p) (FromSchema (get schema ''deprecationMessage'')))
         | None \<Rightarrow> validationResult)
      else validationResult)"

text \<open>\<^verbatim>\<open>_validateNode\<close>: the keywords in the order of the source.\<close>

definition validateNode ::
  "validator \<Rightarrow> nat \<Rightarrow> ASTNode option \<Rightarrow> ASTNode \<Rightarrow> jsval \<Rightarrow> vstate \<Rightarrow> error + vstate" where
  "validateNode v nots parent node schema s0 =
     bindE (validateAllOf v nots parent node schema (checkType node schema (fst s0), snd s0))
       (\<lambda>s1.
     bindE (validateNot v nots parent node schema s1) (\<lambda>s2.
     bindE (validateAnyOf v nots parent node schema s2) (\<lambda>s3.
     bindE (validateOneOf v nots parent node schema s3) (\<lambda>s4.
     bindE (validateIf v nots parent node schema s4) (\<lambda>s5.
       Inr (checkDeprecation parent schema
              (checkConst node schema (checkEnum node schema (fst s5))), snd s5))))))"

text \<open>The \<^verbatim>\<open>switch (node.type)\<close> of \<^verbatim>\<open>validate\<close>, for a node that is no property node.\<close>

definition validateByType ::
  "validator \<Rightarrow> Env \<Rightarrow> nat \<Rightarrow> ASTNode option \<Rightarrow> ASTNode \<Rightarrow> jsval \<Rightarrow> vstate \<Rightarrow> error + vstate" where
  "validateByType v env nots parent node schema s0 =
     (case node of
        ObjectASTNode h properties \<Rightarrow>
          validateObjectNode v env nots parent node schema (fst s0) (snd s0)
      | ArrayASTNode h items \<Rightarrow> validateArrayNode v nots node schema (fst s0) (snd s0)
      | StringASTNode h val \<Rightarrow>
          bindE (validateStringNode env h val schema (fst s0)) (\<lambda>r. Inr (r, snd s0))
      | NumberASTNode h isInteger val \<Rightarrow> Inr (validateNumberNode h val schema (fst s0), snd s0)
      | _ \<Rightarrow> Inr s0)"

subsection \<open>The schemas of the recursive calls\<close>

text \<open>
  Every call of \<open>v\<close> that a validator makes from a schema \<open>s\<close> is on a schema that weighs
  less than \<open>s\<close>. The congruence rules say so: a validator gives the same result with two
  functions \<open>v\<close> and \<open>v'\<close> that agree below the weight of its schema.
\<close>

definition agree :: "nat \<Rightarrow> validator \<Rightarrow> validator \<Rightarrow> bool" where
  "agree b v v' = (\<forall>n p c s r ms. weight s < b \<longrightarrow> v n p c s r ms = v' n p c s r ms)"

lemma agreeD: "agree b v v' \<Longrightarrow> weight s < b \<Longrightarrow> v n p c s r ms = v' n p c s r ms"
  by (simp add: agree_def)

lemma bindE_cong [fundef_cong]:
  "m = m' \<Longrightarrow> (\<And>x. m' = Inr x \<Longrightarrow> f x = g x) \<Longrightarrow> bindE m f = bindE m' g"
  by (auto simp: bindE_def split: sum.splits)

lemma foldE_cong [fundef_cong]:
  "xs = ys \<Longrightarrow> s = t \<Longrightarrow> (\<And>x s. x \<in> set ys \<Longrightarrow> f x s = g x s) \<Longrightarrow> foldE f xs s = foldE g ys t"
proof (induction ys arbitrary: xs s t)
  case Nil
  then show ?case by simp
next
  case (Cons y ys)
  have "foldE f ys = foldE g ys"
    using Cons.IH [OF refl refl] Cons.prems(3) by (intro ext) simp
  with Cons.prems show ?case by simp
qed

lemma someE_cong [fundef_cong]:
  "xs = ys \<Longrightarrow> (\<And>x. x \<in> set ys \<Longrightarrow> f x = g x) \<Longrightarrow> someE f xs = someE g ys"
  by (induction ys arbitrary: xs) (auto intro!: bindE_cong)

lemma truthy_defined: "truthy v \<Longrightarrow> v \<noteq> JUndefined"
  by auto

lemma asSchema_JUndefined: "asSchema JUndefined = JUndefined"
  by (simp add: asSchema_def isBoolean_def)

lemma weight_keyword_asSchema:
  "keyword k \<Longrightarrow> truthy (asSchema (get schema k)) \<Longrightarrow> weight (asSchema (get schema k)) < weight schema"
  using weight_get_keyword [of k schema] weight_asSchema [of "get schema k"]
  by (cases "get schema k = JUndefined") (auto simp: asSchema_JUndefined)

lemma weight_keyword_asSchema2:
  "keyword k \<Longrightarrow> truthy (asSchema (get schema k)) \<Longrightarrow>
   weight (asSchema (asSchema (get schema k))) < weight schema"
  using weight_keyword_asSchema [of k schema] weight_asSchema [of "asSchema (get schema k)"]
  by simp

lemma weight_keyword_elem:
  "x \<in> set (elems (get schema k)) \<Longrightarrow> weight (asSchema x) < weight schema"
  using weight_elems [of x "get schema k"] weight_asSchema [of x] weight_get_le [of schema k]
  by simp

lemma weight_keyword_nth:
  "i < length (elems (get schema k)) \<Longrightarrow> weight (asSchema (elems (get schema k) ! i)) < weight schema"
  using weight_keyword_elem [of "elems (get schema k) ! i" schema k] by simp

lemma weight_keyword_object:
  "keyword k \<Longrightarrow> typeof_object (get schema k) \<Longrightarrow> weight (get schema k) < weight schema"
  using weight_get_keyword [of k schema]
  by (cases "get schema k") (auto simp: typeof_object_def)

lemma weight_keyword_member:
  "keyword k \<Longrightarrow> truthy (get schema k) \<Longrightarrow> weight (get (get schema k) k') < weight schema"
  using weight_get_keyword [of k schema] weight_get_le [of "get schema k" k']
  by (cases "get schema k = JUndefined") auto

lemma weight_keyword_member_asSchema:
  "keyword k \<Longrightarrow> truthy (get schema k) \<Longrightarrow>
   weight (asSchema (get (get schema k) k')) < weight schema"
  using weight_keyword_member [of k schema k'] weight_asSchema [of "get (get schema k) k'"]
  by simp

lemmas weight_keywords =
  weight_keyword_asSchema weight_keyword_asSchema2 weight_keyword_elem weight_keyword_nth
  weight_keyword_object weight_keyword_member weight_keyword_member_asSchema

lemma keyword_simps [simp]:
  "keyword ''items''" "keyword ''additionalItems''" "keyword ''contains''"
  "keyword ''properties''" "keyword ''patternProperties''" "keyword ''additionalProperties''"
  "keyword ''dependencies''" "keyword ''propertyNames''" "keyword ''not''" "keyword ''if''"
  "keyword ''then''" "keyword ''else''"
  by (simp_all add: keyword_def)

lemma validateInto_agree:
  "v n p c s new_ValidationResult (snd st) = v' n p c s new_ValidationResult (snd st) \<Longrightarrow>
   validateInto v n p c s st = validateInto v' n p c s st"
  by (simp add: validateInto_def)

lemma validateItems_agree:
  assumes "agree (weight schema) v v'"
  shows "validateItems v nots node schema s = validateItems v' nots node schema s"
  unfolding validateItems_def Let_def
  by (intro bindE_cong foldE_cong if_cong refl validateInto_agree agreeD [OF assms])
     (auto simp: weight_keywords)

lemma validateContains_agree:
  assumes "agree (weight schema) v v'"
  shows "validateContains v nots node schema r = validateContains v' nots node schema r"
  unfolding validateContains_def Let_def
  by (intro bindE_cong someE_cong if_cong refl agreeD [OF assms])
     (auto simp: weight_keywords)

lemma validateArrayNode_agree:
  assumes "agree (weight schema) v v'"
  shows "validateArrayNode v nots node schema r ms = validateArrayNode v' nots node schema r ms"
  unfolding validateArrayNode_def
  by (simp add: validateItems_agree [OF assms] validateContains_agree [OF assms])

lemma validateMatched_agree:
  assumes "agree (weight schema) v v'" and "weight propertySchema < weight schema"
  shows "validateMatched v nots schema name propertySchema pc s =
         validateMatched v' nots schema name propertySchema pc s"
proof -
  have "validateInto v nots (Some (fst pc)) (Some (snd pc)) propertySchema s =
        validateInto v' nots (Some (fst pc)) (Some (snd pc)) propertySchema s"
    by (intro validateInto_agree agreeD [OF assms(1)] assms(2))
  then show ?thesis
    unfolding validateMatched_def by (cases propertySchema) simp_all
qed

lemma validateProperties_agree:
  assumes "agree (weight schema) v v'"
  shows "validateProperties v nots schema seenKeys s = validateProperties v' nots schema seenKeys s"
  unfolding validateProperties_def Let_def
  by (auto intro!: foldE_cong bindE_cong validateMatched_agree [OF assms]
      simp: weight_keywords split: option.splits)

lemma validatePattern_agree:
  assumes "agree (weight schema) v v'" and "truthy (get schema ''patternProperties'')"
  shows "validatePattern v nots schema seenKeys propertyPattern regex s =
         validatePattern v' nots schema seenKeys propertyPattern regex s"
  unfolding validatePattern_def Let_def
  by (auto intro!: foldE_cong bindE_cong validateMatched_agree [OF assms(1)]
      simp: weight_keywords assms(2) split: option.splits)

lemma validatePatternProperties_agree:
  assumes "agree (weight schema) v v'"
  shows "validatePatternProperties v env nots schema seenKeys s =
         validatePatternProperties v' env nots schema seenKeys s"
  unfolding validatePatternProperties_def
  by (auto intro!: foldE_cong bindE_cong validatePattern_agree [OF assms])

lemma validateAdditionalProperties_agree:
  assumes "agree (weight schema) v v'"
  shows "validateAdditionalProperties v nots schema seenKeys u s =
         validateAdditionalProperties v' nots schema seenKeys u s"
  unfolding validateAdditionalProperties_def
  by (auto intro!: foldE_cong validateInto_agree agreeD [OF assms]
      simp: weight_keywords split: option.splits)

lemma validateDependencies_agree:
  assumes "agree (weight schema) v v'"
  shows "validateDependencies v env nots parent node schema seenKeys s =
         validateDependencies v' env nots parent node schema seenKeys s"
  unfolding validateDependencies_def Let_def
  by (auto intro!: foldE_cong validateInto_agree agreeD [OF assms]
      simp: weight_keywords split: option.splits)

lemma validatePropertyNames_agree:
  assumes "agree (weight schema) v v'"
  shows "validatePropertyNames v nots properties schema s =
         validatePropertyNames v' nots properties schema s"
  unfolding validatePropertyNames_def Let_def
  by (auto intro!: foldE_cong bindE_cong agreeD [OF assms]
      simp: weight_keywords split: ASTNode.splits)

lemma validateObjectNode_agree:
  assumes "agree (weight schema) v v'"
  shows "validateObjectNode v env nots parent node schema r ms =
         validateObjectNode v' env nots parent node schema r ms"
proof -
  have "validatePropertyNames v nots (children node) schema =
        validatePropertyNames v' nots (children node) schema"
    by (intro ext validatePropertyNames_agree assms)
  then show ?thesis
    unfolding validateObjectNode_def Let_def
    by (simp add: validateProperties_agree [OF assms] validatePatternProperties_agree [OF assms]
        validateAdditionalProperties_agree [OF assms] validateDependencies_agree [OF assms])
qed

lemma validateByType_agree:
  assumes "agree (weight schema) v v'"
  shows "validateByType v env nots parent node schema s = validateByType v' env nots parent node schema s"
  unfolding validateByType_def
  by (simp add: validateObjectNode_agree [OF assms] validateArrayNode_agree [OF assms]
      split: ASTNode.splits)

lemma validateAllOf_agree:
  assumes "agree (weight schema) v v'"
  shows "validateAllOf v nots parent node schema s = validateAllOf v' nots parent node schema s"
  unfolding validateAllOf_def
  by (auto intro!: foldE_cong agreeD [OF assms] simp: weight_keywords)

lemma validateNot_agree:
  assumes "agree (weight schema) v v'"
  shows "validateNot v nots parent node schema s = validateNot v' nots parent node schema s"
  unfolding validateNot_def Let_def
  by (auto intro!: bindE_cong agreeD [OF assms] simp: weight_keywords)

lemma testAlternatives_agree:
  assumes "\<And>n p c x r ms. x \<in> set alternatives \<Longrightarrow>
             v n p c (asSchema x) r ms = v' n p c (asSchema x) r ms"
  shows "testAlternatives v nots parent node alternatives m s =
         testAlternatives v' nots parent node alternatives m s"
  unfolding testAlternatives_def
  by (intro bindE_cong foldE_cong refl) (simp_all add: assms)

lemma validateAnyOf_agree:
  assumes "agree (weight schema) v v'"
  shows "validateAnyOf v nots parent node schema s = validateAnyOf v' nots parent node schema s"
  unfolding validateAnyOf_def
  by (auto intro!: testAlternatives_agree agreeD [OF assms] simp: weight_keywords)

lemma validateOneOf_agree:
  assumes "agree (weight schema) v v'"
  shows "validateOneOf v nots parent node schema s = validateOneOf v' nots parent node schema s"
  unfolding validateOneOf_def
  by (auto intro!: testAlternatives_agree agreeD [OF assms] simp: weight_keywords)

lemma testBranch_agree:
  assumes "\<And>n p c r ms. v n p c (asSchema x) r ms = v' n p c (asSchema x) r ms"
  shows "testBranch v nots parent node x s = testBranch v' nots parent node x s"
  unfolding testBranch_def by (simp add: assms)

lemma validateIf_agree:
  assumes "agree (weight schema) v v'"
  shows "validateIf v nots parent node schema s = validateIf v' nots parent node schema s"
  unfolding validateIf_def testCondition_def Let_def
  by (auto intro!: bindE_cong testBranch_agree agreeD [OF assms] simp: weight_keywords)

lemma validateNode_agree:
  assumes "agree (weight schema) v v'"
  shows "validateNode v nots parent node schema s = validateNode v' nots parent node schema s"
  unfolding validateNode_def
  by (simp add: validateAllOf_agree [OF assms] validateNot_agree [OF assms]
      validateAnyOf_agree [OF assms] validateOneOf_agree [OF assms] validateIf_agree [OF assms])

lemma validateByType_cong [fundef_cong]:
  assumes "env = env'" "nots = nots'" "parent = parent'" "node = node'" "schema = schema'" "s = s'"
    and "\<And>n p c x r ms. weight x < weight schema' \<Longrightarrow> v n p c x r ms = v' n p c x r ms"
  shows "validateByType v env nots parent node schema s =
         validateByType v' env' nots' parent' node' schema' s'"
  using assms validateByType_agree [of schema' v v'] by (simp add: agree_def)

lemma validateNode_cong [fundef_cong]:
  assumes "nots = nots'" "parent = parent'" "node = node'" "schema = schema'" "s = s'"
    and "\<And>n p c x r ms. weight x < weight schema' \<Longrightarrow> v n p c x r ms = v' n p c x r ms"
  shows "validateNode v nots parent node schema s = validateNode v' nots' parent' node' schema' s'"
  using assms validateNode_agree [of schema' v v'] by (simp add: agree_def)

subsection \<open>validate\<close>

text \<open>
  The guard, the \<^verbatim>\<open>switch\<close> on the type of the node, \<^verbatim>\<open>_validateNode()\<close> and
  \<^verbatim>\<open>matchingSchemas.add({ node: node, schema: schema })\<close>. A property node is validated as
  its value node. Every other path reads a property of \<^verbatim>\<open>schema\<close> before it returns, and
  raises a TypeError when the schema is \<^verbatim>\<open>null\<close> or \<^verbatim>\<open>undefined\<close>; no other exception can
  come first, since the pattern that \<^verbatim>\<open>new RegExp\<close> compiles is itself read from the schema.
\<close>

function validate ::
  "Env \<Rightarrow> nat \<Rightarrow> ASTNode option \<Rightarrow> ASTNode option \<Rightarrow> jsval \<Rightarrow> ValidationResult \<Rightarrow> ISchemaCollector
     \<Rightarrow> error + vstate" where
  "validate env nots parent node schema validationResult matchingSchemas =
     (case node of
        None \<Rightarrow> Inr (validationResult, matchingSchemas)
      | Some n \<Rightarrow>
          if \<not> collector_include matchingSchemas n then Inr (validationResult, matchingSchemas)
          else
            (case n of
               PropertyASTNode h kh kv valueNode c \<Rightarrow>
                 validate env nots (Some n) valueNode schema validationResult matchingSchemas
             | _ \<Rightarrow>
                 if schema = JNull \<or> schema = JUndefined then Inl TypeError
                 else
                   bindE (validateByType (validate env) env nots parent n schema
                            (validationResult, matchingSchemas))
                     (\<lambda>s1.
                   bindE (validateNode (validate env) nots parent n schema s1) (\<lambda>s2.
                     Inr (fst s2,
                          collector_add (snd s2)
                            \<lparr>appNode = n, inverted = None, appSchema = schema,
                             notsCrossed = nots\<rparr>)))))"
  by pat_completeness auto
termination
  by (relation "measures [\<lambda>(env, nots, parent, node, schema, r, ms). weight schema,
                          \<lambda>(env, nots, parent, node, schema, r, ms).
                             case node of Some n \<Rightarrow> nodes n | None \<Rightarrow> 0]")
     (auto split: option.splits)

declare validate.simps [simp del]

section \<open>The document\<close>

text \<open>
  \<^verbatim>\<open>JSONDocument.validate\<close> and \<^verbatim>\<open>JSONDocument.getMatchingSchemas\<close>. The root of a document has
  no parent. \<^verbatim>\<open>textDocument.positionAt\<close> belongs to the editor; \<open>None\<close> is the \<^verbatim>\<open>null\<close> that
  \<^verbatim>\<open>validate\<close> returns.
\<close>

record Position =
  line :: nat
  character :: nat

record TextDocument =
  positionAt :: "int \<Rightarrow> Position"

record Diagnostic =
  range :: "Position \<times> Position"
  diagnosticMessage :: message
  diagnosticSeverity :: DiagnosticSeverity
  diagnosticCode :: "ErrorCode option"

definition toDiagnostic :: "TextDocument \<Rightarrow> IProblem \<Rightarrow> Diagnostic" where
  "toDiagnostic textDocument p =
     \<lparr>range = (positionAt textDocument (offset (location p)),
               positionAt textDocument (offset (location p) + len (location p))),
      diagnosticMessage = message p, diagnosticSeverity = severity p, diagnosticCode = code p\<rparr>"

definition JSONDocument_validate ::
  "Env \<Rightarrow> JSONDocument \<Rightarrow> TextDocument \<Rightarrow> jsval \<Rightarrow> error + Diagnostic list option" where
  "JSONDocument_validate env this textDocument schema =
     (if root this \<noteq> None \<and> truthy schema then
        bindE (validate env 0 None (root this) schema new_ValidationResult NoOpSchemaCollector)
          (\<lambda>s. Inr (Some (map (toDiagnostic textDocument) (problems (fst s)))))
      else Inr None)"

definition getMatchingSchemas ::
  "Env \<Rightarrow> JSONDocument \<Rightarrow> jsval \<Rightarrow> int \<Rightarrow> ASTNode option \<Rightarrow> error + IApplicableSchema list" where
  "getMatchingSchemas env this schema focusOffset exclude =
     (let matchingSchemas = SchemaCollector focusOffset exclude [] in
      if root this \<noteq> None \<and> truthy schema then
        bindE (validate env 0 None (root this) schema new_ValidationResult matchingSchemas)
          (\<lambda>s. Inr (schemas (snd s)))
      else Inr (schemas matchingSchemas))"

section \<open>Documents and schemas of the scenarios\<close>

text \<open>
  An environment for the scenarios: its regular expression engine rejects the pattern \<^verbatim>\<open>[\<close>
  (an unterminated character class, a syntax error in ECMAScript); nothing else of it is
  consulted by the scenarios below.
\<close>

definition env0 :: Env where
  "env0 = \<lparr>RegExp_new = (\<lambda>p. if p = ''['' then Inl SyntaxError else Inr (\<lambda>s. True)),
           emailPattern = (\<lambda>s. True), colorHexPattern = (\<lambda>s. True),
           Uri_parse = (\<lambda>s. Inr ''http''), Number_toString = (\<lambda>n. ''0'')\<rparr>"

definition td0 :: TextDocument where
  "td0 = \<lparr>positionAt = (\<lambda>i. \<lparr>line = 0, character = nat i\<rparr>)\<rparr>"

definition hdr :: "nat \<Rightarrow> int \<Rightarrow> int \<Rightarrow> ASTNodeImpl" where
  "hdr i off l = \<lparr>ref = i, nodeOffset = off, nodeLength = l\<rparr>"

text \<open>The document \<^verbatim>\<open>5\<close> and the schema
  \<^verbatim>\<open>{anyOf: [{type: "string"}, {type: "number", minimum: 10}]}\<close>.\<close>

definition five :: ASTNode where
  "five = NumberASTNode (hdr 0 0 1) True (Finite 5)"

definition stringBranch :: jsval where
  "stringBranch = JObj [(''type'', JStr ''string'')]"

definition numberBranch :: jsval where
  "numberBranch = JObj [(''type'', JStr ''number''), (''minimum'', JNum (Finite 10))]"

definition anyOfSchema :: jsval where
  "anyOfSchema = JObj [(''anyOf'', JArr [stringBranch, numberBranch])]"

text \<open>The document \<^verbatim>\<open>{"<<": {"a":1}, "b":2}\<close> and the schema
  \<^verbatim>\<open>{type: "object", required: ["a", "b"]}\<close>.\<close>

definition mergeDoc :: ASTNode where
  "mergeDoc = ObjectASTNode (hdr 0 0 22)
     [PropertyASTNode (hdr 1 1 13) (hdr 2 1 4) ''<<''
        (Some (ObjectASTNode (hdr 3 7 7)
           [PropertyASTNode (hdr 4 8 5) (hdr 5 8 3) ''a''
              (Some (NumberASTNode (hdr 6 12 1) True (Finite 1))) 11])) 5,
      PropertyASTNode (hdr 7 16 5) (hdr 8 16 3) ''b''
        (Some (NumberASTNode (hdr 9 20 1) True (Finite 2))) 19]"

definition requiredSchema :: jsval where
  "requiredSchema = JObj [(''type'', JStr ''object''), (''required'', JArr [JStr ''a'', JStr ''b''])]"

text \<open>The documents \<^verbatim>\<open>[[1],[1]]\<close> and \<^verbatim>\<open>[1,1]\<close> and the schema \<^verbatim>\<open>{uniqueItems: true}\<close>.\<close>

definition one1 :: ASTNode where
  "one1 = ArrayASTNode (hdr 1 1 3) [NumberASTNode (hdr 2 2 1) True (Finite 1)]"

definition one2 :: ASTNode where
  "one2 = ArrayASTNode (hdr 3 5 3) [NumberASTNode (hdr 4 6 1) True (Finite 1)]"

definition equalArrays :: ASTNode where
  "equalArrays = ArrayASTNode (hdr 0 0 9) [one1, one2]"

definition equalNumbers :: ASTNode where
  "equalNumbers = ArrayASTNode (hdr 0 0 5)
     [NumberASTNode (hdr 1 1 1) True (Finite 1), NumberASTNode (hdr 2 3 1) True (Finite 1)]"

definition uniqueSchema :: jsval where
  "uniqueSchema = JObj [(''uniqueItems'', JBool True)]"

text \<open>The document \<^verbatim>\<open>"abc"\<close>, the document \<^verbatim>\<open>{"b":2}\<close>, and two schemas whose regular
  expression is \<^verbatim>\<open>[\<close>.\<close>

definition abc :: ASTNode where
  "abc = StringASTNode (hdr 0 0 5) ''abc''"

definition objectB :: ASTNode where
  "objectB = ObjectASTNode (hdr 0 0 7)
     [PropertyASTNode (hdr 1 1 5) (hdr 2 1 3) ''b''
        (Some (NumberASTNode (hdr 3 5 1) True (Finite 2))) 4]"

definition badPattern :: jsval where
  "badPattern = JObj [(''pattern'', JStr ''[''), (''minLength'', JNum (Finite 5))]"

definition badPatternProperties :: jsval where
  "badPatternProperties = JObj [(''patternProperties'', JObj [(''['', JObj [])])]"

text \<open>The schema \<^verbatim>\<open>{not: {not: {type: "string"}}}\<close>.\<close>

definition notNotSchema :: jsval where
  "notNotSchema = JObj [(''not'', JObj [(''not'', stringBranch)])]"

text \<open>Validation results that differ in \<open>propertiesMatches\<close> only.\<close>

definition score :: "int \<Rightarrow> ValidationResult" where
  "score n = new_ValidationResult\<lparr>propertiesMatches := n\<rparr>"

text \<open>The array \<^verbatim>\<open>[1, 2]\<close> and a visitor predicate that is false on its first item.\<close>

definition item1 :: ASTNode where
  "item1 = NumberASTNode \<lparr>ref = 1, nodeOffset = 1, nodeLength = 1\<rparr> True (Finite 1)"

definition item2 :: ASTNode where
  "item2 = NumberASTNode \<lparr>ref = 2, nodeOffset = 4, nodeLength = 1\<rparr> True (Finite 2)"

definition array12 :: ASTNode where
  "array12 = ArrayASTNode \<lparr>ref = 0, nodeOffset = 0, nodeLength = 6\<rparr> [item1, item2]"

definition not_item1 :: "ASTNode \<Rightarrow> bool" where
  "not_item1 n = (ref (header n) \<noteq> 1)"

text \<open>Schemas with the bounds of a number in the two styles of \<^verbatim>\<open>exclusiveMinimum\<close>.\<close>

definition schemaMin :: jsval where
  "schemaMin = JObj [(''minimum'', JNum (Finite 10)), (''exclusiveMinimum'', JBool True),
                     (''maximum'', JNum (Finite 20)), (''exclusiveMaximum'', JBool True)]"

definition schemaExcl :: jsval where
  "schemaExcl = JObj [(''minimum'', JNum (Finite 10)), (''exclusiveMinimum'', JNum (Finite 12)),
                      (''maximum'', JNum (Finite 20)), (''exclusiveMaximum'', JNum (Finite 18))]"

definition h0 :: ASTNodeImpl where
  "h0 = \<lparr>ref = 0, nodeOffset = 0, nodeLength = 2\<rparr>"

section \<open>The ranking of validation results\<close>

text \<open>
  C7. For all validation results \<open>a\<close>, \<open>b\<close> and \<open>c\<close>: \<open>compare a b = - compare b a\<close>,
  \<open>compare a a = 0\<close>, and the order read off the sign of \<open>compare\<close> is transitive, for the
  strict order, for the weak order and for the ties; \<open>compare\<close> is lexicographic on
  has-problems, \<open>enumValueMatch\<close>, \<open>primaryValueMatches\<close>, \<open>propertiesValueMatches\<close> and
  \<open>propertiesMatches\<close>: it is negative exactly if the rank of \<open>a\<close> is below the rank of \<open>b\<close>,
  and zero exactly if the ranks are equal.
\<close>

theorem compare_laws:
  "compare a b = - compare b a \<and> compare a a = 0 \<and>
   (compare a b < 0 \<and> compare b c < 0 \<longrightarrow> compare a c < 0) \<and>
   (compare a b \<le> 0 \<and> compare b c \<le> 0 \<longrightarrow> compare a c \<le> 0) \<and>
   (compare a b = 0 \<and> compare b c = 0 \<longrightarrow> compare a c = 0) \<and>
   (compare a b < 0) = lexLess (rank a) (rank b) \<and>
   (compare a b = 0) = (rank a = rank b)"
proof (intro conjI impI)
  show "compare a b = - compare b a"
    by (simp add: compare_def)
  show "compare a a = 0"
    by (simp add: compare_def)
  show "compare a c < 0" if "compare a b < 0 \<and> compare b c < 0"
    using that by (auto simp: compare_def split: if_splits)
  show "compare a c \<le> 0" if "compare a b \<le> 0 \<and> compare b c \<le> 0"
    using that by (auto simp: compare_def split: if_splits)
  show "compare a c = 0" if "compare a b = 0 \<and> compare b c = 0"
    using that by (auto simp: compare_def split: if_splits)
  show "(compare a b < 0) = lexLess (rank a) (rank b)"
    by (auto simp: compare_def rank_def)
  show "(compare a b = 0) = (rank a = rank b)"
    by (auto simp: compare_def rank_def)
qed

theorem compare_laws_witness:
  "compare (score 0) (score 1) < 0 \<and> compare (score 1) (score 2) < 0 \<and>
   compare (score 0) (score 2) < 0 \<and>
   compare (score 1) (score 1) \<le> 0 \<and> compare (score 1) (score 1) = 0 \<and>
   compare (score 0) (score 1) = - compare (score 1) (score 0) \<and>
   lexLess (rank (score 0)) (rank (score 1)) \<and> rank (score 1) = rank (score 1)"
  using compare_laws [of "score 0" "score 1" "score 2"] compare_laws [of "score 1" "score 1" "score 1"]
  by (simp add: compare_def score_def new_ValidationResult_def hasProblems_def)

section \<open>The traversal order of the visitor\<close>

text \<open>
  C8, as the code has it. \<open>visit\<close> calls the visitor on the nodes of the document in
  pre-order from the root, and the first call that returns false ends the whole traversal:
  the visitor runs along the pre-order list and stops at the first false answer, so that
  neither the children of that node nor any later node is visited.
\<close>

theorem visit_preorder_until_false:
  "visit doc visitor s =
     (case root doc of Some r \<Rightarrow> snd (visitList visitor (preorder r) s) | None \<Rightarrow> s)"
  by (simp add: visit_def doVisit_visitList split: option.splits)

text \<open>
  The claim as the specification words it (after a false answer the nodes outside the subtree
  of that node are still visited) fails on the array \<^verbatim>\<open>[1, 2]\<close> with a visitor that returns
  false on the first item: the second item is outside the subtree of the first and is never
  visited.
\<close>

theorem visit_stops_everywhere_counterexample:
  "\<not> not_item1 item1 \<and> item2 \<notin> set (preorder item1) \<and> item2 \<in> set (preorder array12) \<and>
   visited \<lparr>root = Some array12\<rparr> not_item1 = [array12, item1] \<and>
   item2 \<notin> set (visited \<lparr>root = Some array12\<rparr> not_item1)"
  by (simp add: visited_def visit_def tracing_def preorder.simps doVisit.simps not_item1_def
      item1_def item2_def array12_def)

section \<open>The bounds of a number\<close>

lemma warnings_push:
  "warnings key (push r (nodeWarning h (Localize k t args))) =
     warnings key r + (if k = key then 1 else 0)"
  by (simp add: warnings_def push_def nodeWarning_def warning_def)

lemma warnings_validateNumberNode:
  "warnings key (validateNumberNode h v schema r) =
     warnings key r
     + (if key = ''multipleOfWarning'' \<and>
           numberWhere (get schema ''multipleOf'') (\<lambda>m. \<not> num_eq (js_rem v m) (Finite 0))
        then 1 else 0)
     + (if key = ''exclusiveMinimumWarning'' \<and>
           numberWhere (getExclusiveLimit (get schema ''minimum'') (get schema ''exclusiveMinimum''))
             (num_le v)
        then 1 else 0)
     + (if key = ''exclusiveMaximumWarning'' \<and>
           numberWhere (getExclusiveLimit (get schema ''maximum'') (get schema ''exclusiveMaximum''))
             (num_ge v)
        then 1 else 0)
     + (if key = ''minimumWarning'' \<and>
           numberWhere (getLimit (get schema ''minimum'') (get schema ''exclusiveMinimum''))
             (num_lt v)
        then 1 else 0)
     + (if key = ''maximumWarning'' \<and>
           numberWhere (getLimit (get schema ''maximum'') (get schema ''exclusiveMaximum''))
             (num_gt v)
        then 1 else 0)"
  by (simp add: validateNumberNode_def Let_def warnings_push)

text \<open>
  C6. For a number node with value \<open>v\<close>, counting the warnings that \<open>validateNumberNode\<close>
  adds: if \<^verbatim>\<open>exclusiveMinimum\<close> is the boolean true, \<^verbatim>\<open>minimum\<close> acts only as an exclusive
  bound (one warning iff it is a number with \<open>v \<le> minimum\<close>, and no inclusive warning); if
  \<^verbatim>\<open>exclusiveMinimum\<close> is a number, it is an exclusive bound of its own (one warning iff
  \<open>v \<le> exclusiveMinimum\<close>) and \<^verbatim>\<open>minimum\<close> stays inclusive (one warning iff it is a number
  with \<open>v < minimum\<close>); the same holds for \<^verbatim>\<open>maximum\<close> and \<^verbatim>\<open>exclusiveMaximum\<close>. The
  comparisons are those of JavaScript.
\<close>

theorem number_bounds:
  "(get schema ''exclusiveMinimum'' = JBool True \<longrightarrow>
      warnings ''exclusiveMinimumWarning'' (validateNumberNode h v schema r) =
        warnings ''exclusiveMinimumWarning'' r +
          (if numberWhere (get schema ''minimum'') (num_le v) then 1 else 0) \<and>
      warnings ''minimumWarning'' (validateNumberNode h v schema r) =
        warnings ''minimumWarning'' r) \<and>
   (get schema ''exclusiveMinimum'' = JNum e \<longrightarrow>
      warnings ''exclusiveMinimumWarning'' (validateNumberNode h v schema r) =
        warnings ''exclusiveMinimumWarning'' r + (if num_le v e then 1 else 0) \<and>
      warnings ''minimumWarning'' (validateNumberNode h v schema r) =
        warnings ''minimumWarning'' r +
          (if numberWhere (get schema ''minimum'') (num_lt v) then 1 else 0)) \<and>
   (get schema ''exclusiveMaximum'' = JBool True \<longrightarrow>
      warnings ''exclusiveMaximumWarning'' (validateNumberNode h v schema r) =
        warnings ''exclusiveMaximumWarning'' r +
          (if numberWhere (get schema ''maximum'') (num_ge v) then 1 else 0) \<and>
      warnings ''maximumWarning'' (validateNumberNode h v schema r) =
        warnings ''maximumWarning'' r) \<and>
   (get schema ''exclusiveMaximum'' = JNum e' \<longrightarrow>
      warnings ''exclusiveMaximumWarning'' (validateNumberNode h v schema r) =
        warnings ''exclusiveMaximumWarning'' r + (if num_ge v e' then 1 else 0) \<and>
      warnings ''maximumWarning'' (validateNumberNode h v schema r) =
        warnings ''maximumWarning'' r +
          (if numberWhere (get schema ''maximum'') (num_gt v) then 1 else 0))"
  by (simp add: warnings_validateNumberNode getExclusiveLimit_def getLimit_def
      isNumber_def isBoolean_def numberWhere_def)


theorem number_bounds_witness:
  "warnings ''exclusiveMinimumWarning''
     (validateNumberNode h0 (Finite 10) schemaMin new_ValidationResult) = 1 \<and>
   warnings ''minimumWarning''
     (validateNumberNode h0 (Finite 10) schemaMin new_ValidationResult) = 0 \<and>
   warnings ''exclusiveMaximumWarning''
     (validateNumberNode h0 (Finite 10) schemaMin new_ValidationResult) = 0 \<and>
   warnings ''maximumWarning''
     (validateNumberNode h0 (Finite 10) schemaMin new_ValidationResult) = 0 \<and>
   warnings ''exclusiveMinimumWarning''
     (validateNumberNode h0 (Finite 19) schemaExcl new_ValidationResult) = 0 \<and>
   warnings ''minimumWarning''
     (validateNumberNode h0 (Finite 19) schemaExcl new_ValidationResult) = 0 \<and>
   warnings ''exclusiveMaximumWarning''
     (validateNumberNode h0 (Finite 19) schemaExcl new_ValidationResult) = 1 \<and>
   warnings ''maximumWarning''
     (validateNumberNode h0 (Finite 19) schemaExcl new_ValidationResult) = 0"
  using number_bounds [of schemaMin h0 "Finite 10" new_ValidationResult "Finite 12" "Finite 18"]
    number_bounds [of schemaExcl h0 "Finite 19" new_ValidationResult "Finite 12" "Finite 18"]
  by (simp add: schemaMin_def schemaExcl_def get_def numberWhere_def num_le_def num_ge_def
      num_gt_def warnings_def new_ValidationResult_def)

section \<open>The best match of anyOf\<close>

text \<open>
  C1, as the code has it. For the document \<^verbatim>\<open>5\<close> and the schema
  \<^verbatim>\<open>{anyOf: [{type: "string"}, {type: "number", minimum: 10}]}\<close>, \<open>validate\<close> returns exactly
  one diagnostic, the type warning of the string branch: each branch has one problem and no
  score, \<open>compare\<close> of the number branch with the string branch is 0, and on a tie the first
  alternative stays the best match.
\<close>

theorem anyOf_tie_keeps_first:
  "JSONDocument_validate env0 \<lparr>root = Some five\<rparr> td0 anyOfSchema =
     Inr (Some [\<lparr>range = (\<lparr>line = 0, character = 0\<rparr>, \<lparr>line = 0, character = 1\<rparr>),
                 diagnosticMessage =
                   Localize ''typeMismatchWarning'' typeMismatchText [Raw (JStr ''string'')],
                 diagnosticSeverity = Warning, diagnosticCode = None\<rparr>]) \<and>
   (case (validate env0 0 None (Some five) stringBranch new_ValidationResult NoOpSchemaCollector,
          validate env0 0 None (Some five) numberBranch new_ValidationResult NoOpSchemaCollector)
    of (Inr s1, Inr s2) \<Rightarrow>
         length (problems (fst s1)) = 1 \<and> length (problems (fst s2)) = 1 \<and>
         compare (fst s2) (fst s1) = 0
     | _ \<Rightarrow> False)"
  by code_simp

text \<open>The claim as the specification words it: the one diagnostic is not the warning
  \<^verbatim>\<open>Value is below the minimum of 10.\<close> of the number branch.\<close>

theorem anyOf_number_branch_counterexample:
  "JSONDocument_validate env0 \<lparr>root = Some five\<rparr> td0 anyOfSchema \<noteq>
     Inr (Some [\<lparr>range = (\<lparr>line = 0, character = 0\<rparr>, \<lparr>line = 0, character = 1\<rparr>),
                 diagnosticMessage =
                   Localize ''minimumWarning'' ''Value is below the minimum of {0}.''
                     [Raw (JNum (Finite 10))],
                 diagnosticSeverity = Warning, diagnosticCode = None\<rparr>])"
  by code_simp

section \<open>The merge key\<close>

text \<open>
  C2. For the document \<^verbatim>\<open>{"<<": {"a":1}, "b":2}\<close> and the schema
  \<^verbatim>\<open>{type: "object", required: ["a", "b"]}\<close> the specification expects no diagnostics. The
  code raises a TypeError instead, at \<^verbatim>\<open>propertyNode.value["properties"]\<close>, and returns
  nothing.
\<close>

theorem merge_key_raises:
  "JSONDocument_validate env0 \<lparr>root = Some mergeDoc\<rparr> td0 requiredSchema = Inl TypeError"
  by code_simp

section \<open>Unique items\<close>

text \<open>
  C3. The two items of \<^verbatim>\<open>[[1],[1]]\<close> are different nodes with deep-equal values, and the
  schema \<^verbatim>\<open>{uniqueItems: true}\<close> yields no diagnostic for them, where the specification
  expects the warning; for the two equal numbers of \<^verbatim>\<open>[1,1]\<close> the warning is there.
\<close>

theorem uniqueItems_misses_equal_arrays:
  "ref (header one1) \<noteq> ref (header one2) \<and>
   equals (getNodeValue one1) (getNodeValue one2) \<and>
   JSONDocument_validate env0 \<lparr>root = Some equalArrays\<rparr> td0 uniqueSchema = Inr (Some []) \<and>
   JSONDocument_validate env0 \<lparr>root = Some equalNumbers\<rparr> td0 uniqueSchema =
     Inr (Some [\<lparr>range = (\<lparr>line = 0, character = 0\<rparr>, \<lparr>line = 0, character = 5\<rparr>),
                 diagnosticMessage = uniqueItemsWarning,
                 diagnosticSeverity = Warning, diagnosticCode = None\<rparr>])"
  by code_simp

section \<open>Invalid regular expressions\<close>

lemma bindE_isl_left: "isl m \<Longrightarrow> isl (bindE m f)"
  by (cases m) (simp_all add: bindE_def)

lemma bindE_isl_right: "(\<And>x. isl (f x)) \<Longrightarrow> isl (bindE m f)"
  by (cases m) (simp_all add: bindE_def)

lemma foldE_isl: "x \<in> set xs \<Longrightarrow> (\<And>s. isl (f x s)) \<Longrightarrow> isl (foldE f xs s)"
proof (induction xs arbitrary: s)
  case Nil
  then show ?case by simp
next
  case (Cons y ys)
  show ?case
  proof (cases "f y s")
    case (Inl e)
    then show ?thesis by (simp add: bindE_def)
  next
    case (Inr s')
    with Cons.prems(2) [of s] have "x \<noteq> y" by auto
    with Cons Inr show ?thesis by (simp add: bindE_def)
  qed
qed

lemma validatePatternProperties_isl:
  assumes "truthy (get schema ''patternProperties'')"
    and "k \<in> set (Object_keys (get schema ''patternProperties''))"
    and "RegExp_new env k = Inl e"
  shows "isl (validatePatternProperties v env nots schema seenKeys s)"
  unfolding validatePatternProperties_def
  using assms by (auto intro!: foldE_isl [of k] simp: bindE_def)

lemma validateObjectNode_isl:
  assumes "truthy (get schema ''patternProperties'')"
    and "k \<in> set (Object_keys (get schema ''patternProperties''))"
    and "RegExp_new env k = Inl e"
  shows "isl (validateObjectNode v env nots parent node schema r ms)"
  unfolding validateObjectNode_def Let_def
  apply (rule bindE_isl_right)
  apply (rule bindE_isl_right)
  apply (rule bindE_isl_left)
  apply (rule validatePatternProperties_isl [OF assms])
  done

lemma get_of_null [simp]: "get JNull k = JUndefined" "get JUndefined k = JUndefined"
  by (simp_all add: get_def)

text \<open>
  C4, as the code has it. There is no handler around \<^verbatim>\<open>new RegExp\<close>: when an included
  string node meets a schema whose \<^verbatim>\<open>pattern\<close> is a string that is no regular expression,
  \<open>validate\<close> raises the exception of \<^verbatim>\<open>new RegExp\<close>, and when an included object node meets
  a schema with a key of \<^verbatim>\<open>patternProperties\<close> that is no regular expression, \<open>validate\<close>
  raises an exception; in both cases it returns no result and delivers no diagnostics.
\<close>

theorem invalid_regex_raises:
  "(collector_include ms (StringASTNode h val) \<and> get schema ''pattern'' = JStr p \<and>
    RegExp_new env p = Inl e \<longrightarrow>
      validate env nots parent (Some (StringASTNode h val)) schema r ms = Inl e) \<and>
   (collector_include ms (ObjectASTNode h ps) \<and> truthy (get schema ''patternProperties'') \<and>
    k \<in> set (Object_keys (get schema ''patternProperties'')) \<and> RegExp_new env k = Inl e \<longrightarrow>
      isl (validate env nots parent (Some (ObjectASTNode h ps)) schema r ms))"
proof (intro conjI impI)
  assume a: "collector_include ms (StringASTNode h val) \<and> get schema ''pattern'' = JStr p \<and>
    RegExp_new env p = Inl e"
  then have "schema \<noteq> JNull" "schema \<noteq> JUndefined"
    by auto
  with a show "validate env nots parent (Some (StringASTNode h val)) schema r ms = Inl e"
    by (subst validate.simps)
       (simp add: validateByType_def validateStringNode_def Let_def bindE_def)
next
  assume a: "collector_include ms (ObjectASTNode h ps) \<and>
    truthy (get schema ''patternProperties'') \<and>
    k \<in> set (Object_keys (get schema ''patternProperties'')) \<and> RegExp_new env k = Inl e"
  then have "isl (validateObjectNode (validate env) env nots parent (ObjectASTNode h ps) schema
                    r ms)"
    by (intro validateObjectNode_isl [of schema k env e]) simp_all
  with a show "isl (validate env nots parent (Some (ObjectASTNode h ps)) schema r ms)"
    by (subst validate.simps) (auto simp: validateByType_def intro!: bindE_isl_left)
qed

theorem invalid_regex_raises_witness:
  "validate env0 0 None (Some abc) badPattern new_ValidationResult NoOpSchemaCollector =
     Inl SyntaxError \<and>
   isl (validate env0 0 None (Some objectB) badPatternProperties new_ValidationResult
          NoOpSchemaCollector)"
  using
    invalid_regex_raises [where ms = NoOpSchemaCollector and h = "hdr 0 0 5" and val = "''abc''"
      and schema = badPattern and p = "''[''" and env = env0 and e = SyntaxError and nots = 0
      and parent = None and r = new_ValidationResult]
    invalid_regex_raises [where ms = NoOpSchemaCollector and h = "hdr 0 0 7"
      and ps = "[PropertyASTNode (hdr 1 1 5) (hdr 2 1 3) ''b''
                   (Some (NumberASTNode (hdr 3 5 1) True (Finite 2))) 4]"
      and schema = badPatternProperties and k = "''[''" and env = env0 and e = SyntaxError
      and nots = 0 and parent = None and r = new_ValidationResult]
  by (simp add: abc_def objectB_def badPattern_def badPatternProperties_def env0_def get_def
      Object_keys_def)

text \<open>The claim as the specification words it (validation does not raise, the invalid
  regular expression only switches its own check off): on the document \<^verbatim>\<open>"abc"\<close> and the
  schema \<^verbatim>\<open>{pattern: "[", minLength: 5}\<close> nothing is returned, not even the warning of
  \<^verbatim>\<open>minLength\<close>.\<close>

theorem invalid_regex_counterexample:
  "isl (RegExp_new env0 ''['') \<and>
   JSONDocument_validate env0 \<lparr>root = Some abc\<rparr> td0 badPattern = Inl SyntaxError \<and>
   isl (JSONDocument_validate env0 \<lparr>root = Some objectB\<rparr> td0 badPatternProperties)"
  by code_simp

section \<open>The guards\<close>

text \<open>
  C9. \<open>JSONDocument_validate\<close> returns \<^verbatim>\<open>null\<close> (\<open>None\<close>), not an empty list, when the
  document has no root or the schema argument is absent (\<^verbatim>\<open>undefined\<close> or \<^verbatim>\<open>null\<close>); under
  the same conditions \<open>getMatchingSchemas\<close> returns the empty list.
\<close>

theorem no_root_or_schema:
  "root doc = None \<or> schema = JUndefined \<or> schema = JNull \<Longrightarrow>
   JSONDocument_validate env doc textDocument schema = Inr None \<and>
   getMatchingSchemas env doc schema focusOffset exclude = Inr []"
  by (auto simp: JSONDocument_validate_def getMatchingSchemas_def)

theorem no_root_or_schema_witness:
  "JSONDocument_validate env0 \<lparr>root = None\<rparr> td0 anyOfSchema = Inr None \<and>
   getMatchingSchemas env0 \<lparr>root = None\<rparr> anyOfSchema (- 1) None = Inr [] \<and>
   JSONDocument_validate env0 \<lparr>root = Some five\<rparr> td0 JUndefined = Inr None \<and>
   getMatchingSchemas env0 \<lparr>root = Some five\<rparr> JUndefined (- 1) None = Inr []"
  using no_root_or_schema [of "\<lparr>root = None\<rparr>" anyOfSchema env0 td0 "- 1" None]
    no_root_or_schema [of "\<lparr>root = Some five\<rparr>" JUndefined env0 td0 "- 1" None]
  by simp

text \<open>
  C10. \<open>validate\<close> on an absent node, on a node that the collector does not include, and on
  a property node without a value node returns at once: the validation result (its
  problems and scores) and the collector (its records) are what they were.
\<close>

theorem validate_absent_node:
  "validate env nots parent None schema r ms = Inr (r, ms) \<and>
   (\<not> collector_include ms n \<longrightarrow> validate env nots parent (Some n) schema r ms = Inr (r, ms)) \<and>
   validate env nots parent (Some (PropertyASTNode h kh kv None c)) schema r ms = Inr (r, ms)"
proof (intro conjI impI)
  show absent: "validate env nots parent None schema r ms = Inr (r, ms)" for parent
    by (subst validate.simps) simp
  show "validate env nots parent (Some n) schema r ms = Inr (r, ms)" if "\<not> collector_include ms n"
    using that by (subst validate.simps) simp
  show "validate env nots parent (Some (PropertyASTNode h kh kv None c)) schema r ms = Inr (r, ms)"
    by (subst validate.simps) (simp add: absent)
qed

theorem validate_absent_node_witness:
  "\<not> collector_include (SchemaCollector 7 None []) five \<and>
   validate env0 0 None (Some five) anyOfSchema new_ValidationResult (SchemaCollector 7 None []) =
     Inr (new_ValidationResult, SchemaCollector 7 None []) \<and>
   \<not> collector_include (SchemaCollector (- 1) (Some five) []) five \<and>
   validate env0 0 None (Some five) anyOfSchema new_ValidationResult
     (SchemaCollector (- 1) (Some five) []) =
     Inr (new_ValidationResult, SchemaCollector (- 1) (Some five) [])"
  using validate_absent_node [of env0 0 None anyOfSchema new_ValidationResult
      "SchemaCollector 7 None []" five]
    validate_absent_node [of env0 0 None anyOfSchema new_ValidationResult
      "SchemaCollector (- 1) (Some five) []" five]
  by (simp add: five_def hdr_def contains_def)

section \<open>The auxiliary counter is inert\<close>

text \<open>
  The counter \<open>nots\<close> and the field \<open>notsCrossed\<close> are not in the source. Nothing reads them:
  running \<open>validate\<close> with the counter and all records of the collector raised by \<open>k\<close> gives
  the same exception or the same validation result, and the same collector with its records
  raised by \<open>k\<close>.
\<close>

definition shiftRecord :: "nat \<Rightarrow> IApplicableSchema \<Rightarrow> IApplicableSchema" where
  "shiftRecord k a = a\<lparr>notsCrossed := notsCrossed a + k\<rparr>"

fun shiftCollector :: "nat \<Rightarrow> ISchemaCollector \<Rightarrow> ISchemaCollector" where
  "shiftCollector k (SchemaCollector focusOffset exclude ss) =
     SchemaCollector focusOffset exclude (map (shiftRecord k) ss)"
| "shiftCollector k NoOpSchemaCollector = NoOpSchemaCollector"

definition shiftState :: "nat \<Rightarrow> vstate \<Rightarrow> vstate" where
  "shiftState k s = (fst s, shiftCollector k (snd s))"

definition mapE :: "('a \<Rightarrow> 'b) \<Rightarrow> error + 'a \<Rightarrow> error + 'b" where
  "mapE g m = (case m of Inl e \<Rightarrow> Inl e | Inr x \<Rightarrow> Inr (g x))"

definition shifted :: "nat \<Rightarrow> nat \<Rightarrow> validator \<Rightarrow> validator \<Rightarrow> bool" where
  "shifted b k v v' =
     (\<forall>n p c x r ms. weight x < b \<longrightarrow>
        v' (n + k) p c x r (shiftCollector k ms) = mapE (shiftState k) (v n p c x r ms))"

lemma shiftedD:
  "shifted b k v v' \<Longrightarrow> weight x < b \<Longrightarrow>
   v' (n + k) p c x r (shiftCollector k ms) = mapE (shiftState k) (v n p c x r ms)"
  by (simp add: shifted_def)

lemma shiftedD_Suc:
  "shifted b k v v' \<Longrightarrow> weight x < b \<Longrightarrow>
   v' (Suc (n + k)) p c x r (shiftCollector k ms) = mapE (shiftState k) (v (Suc n) p c x r ms)"
  using shiftedD [of b k v v' x "Suc n"] by simp

lemma shiftedD_NoOp:
  "shifted b k v v' \<Longrightarrow> weight x < b \<Longrightarrow>
   v' (n + k) p c x r NoOpSchemaCollector = mapE (shiftState k) (v n p c x r NoOpSchemaCollector)"
  using shiftedD [of b k v v' x n p c r NoOpSchemaCollector] by simp

lemma mapE_simps [simp]: "mapE g (Inr x) = Inr (g x)" "mapE g (Inl e) = Inl e"
  by (simp_all add: mapE_def)

lemma bindE_mapE: "bindE (mapE g m) f = bindE m (\<lambda>x. f (g x))"
  by (cases m) (simp_all add: bindE_def)

lemma mapE_bindE: "mapE g (bindE m f) = bindE m (\<lambda>x. mapE g (f x))"
  by (cases m) (simp_all add: bindE_def)

lemma foldE_mapE:
  "(\<And>x s. x \<in> set xs \<Longrightarrow> f' x (g s) = mapE g (f x s)) \<Longrightarrow>
   foldE f' xs (g s) = mapE g (foldE f xs s)"
proof (induction xs arbitrary: s)
  case Nil
  then show ?case by simp
next
  case (Cons x xs)
  have step: "f' x (g s) = mapE g (f x s)"
    using Cons.prems by simp
  have rest: "foldE f' xs (g t) = mapE g (foldE f xs t)" for t
    using Cons.prems by (intro Cons.IH) simp
  show ?case
    by (cases "f x s") (simp_all add: bindE_def step rest)
qed

lemma shiftState_simps [simp]:
  "fst (shiftState k s) = fst s" "snd (shiftState k s) = shiftCollector k (snd s)"
  "shiftState k (r, ms) = (r, shiftCollector k ms)"
  by (simp_all add: shiftState_def)

lemma include_shift [simp]: "collector_include (shiftCollector k ms) n = collector_include ms n"
  by (cases ms) simp_all

lemma newSub_shift [simp]: "newSub (shiftCollector k ms) = shiftCollector k (newSub ms)"
  by (cases ms) simp_all

lemma schemas_shift [simp]: "schemas (shiftCollector k ms) = map (shiftRecord k) (schemas ms)"
  by (cases ms) simp_all

lemma add_shift [simp]:
  "collector_add (shiftCollector k ms) (shiftRecord k a) = shiftCollector k (collector_add ms a)"
  by (cases ms) simp_all

lemma merge_shift [simp]:
  "collector_merge (shiftCollector k ms) (shiftCollector k other) =
     shiftCollector k (collector_merge ms other)"
  by (cases ms) simp_all

lemma flipInverted_shift: "flipInverted (shiftRecord k a) = shiftRecord k (flipInverted a)"
  by (simp add: flipInverted_def shiftRecord_def)

lemma validateInto_shift:
  assumes "shifted b k v v'" and "weight x < b"
  shows "validateInto v' (n + k) p c x (shiftState k s) =
         mapE (shiftState k) (validateInto v n p c x s)"
  unfolding validateInto_def
  by (simp add: shiftedD [OF assms] bindE_mapE mapE_bindE)

lemma bindE_shift:
  "m' = mapE g m \<Longrightarrow> (\<And>x. f' (g x) = mapE g' (f x)) \<Longrightarrow> bindE m' f' = mapE g' (bindE m f)"
  by (simp add: bindE_mapE mapE_bindE)

lemma if_shift:
  "(c \<Longrightarrow> a' = mapE g a) \<Longrightarrow> (\<not> c \<Longrightarrow> b' = mapE g b) \<Longrightarrow>
   (if c then a' else b') = mapE g (if c then a else b)"
  by simp

lemmas bind_state = bindE_shift [where g = "shiftState k" and g' = "shiftState k"] for k
lemmas fold_state = foldE_mapE [where g = "shiftState k"] for k

lemma validateItems_shift:
  assumes "shifted (weight schema) k v v'"
  shows "validateItems v' (n + k) node schema (shiftState k s) =
         mapE (shiftState k) (validateItems v n node schema s)"
  unfolding validateItems_def Let_def
  by (intro if_shift bind_state fold_state validateInto_shift [OF assms])
     (simp_all add: weight_keywords)

lemma validateContains_shift:
  assumes "shifted (weight schema) k v v'"
  shows "validateContains v' (n + k) node schema r = validateContains v n node schema r"
proof (cases "truthy (asSchema (get schema ''contains''))")
  case True
  have "someE (\<lambda>item.
           bindE (v' (n + k) (Some node) (Some item) (asSchema (get schema ''contains''))
                    new_ValidationResult NoOpSchemaCollector)
             (\<lambda>t. Inr (\<not> hasProblems (fst t)))) (children node) =
        someE (\<lambda>item.
           bindE (v n (Some node) (Some item) (asSchema (get schema ''contains''))
                    new_ValidationResult NoOpSchemaCollector)
             (\<lambda>t. Inr (\<not> hasProblems (fst t)))) (children node)"
    by (rule someE_cong [OF refl])
       (simp add: shiftedD_NoOp [OF assms] weight_keywords True bindE_mapE)
  then show ?thesis
    by (simp add: validateContains_def Let_def)
next
  case False
  then show ?thesis
    by (simp add: validateContains_def)
qed

lemma validateArrayNode_shift:
  assumes "shifted (weight schema) k v v'"
  shows "validateArrayNode v' (n + k) node schema r (shiftCollector k ms) =
         mapE (shiftState k) (validateArrayNode v n node schema r ms)"
proof -
  have "validateArrayNode v' (n + k) node schema r (shiftCollector k ms) =
        bindE (validateItems v' (n + k) node schema (shiftState k (r, ms))) (\<lambda>s.
        bindE (validateContains v n node schema (fst s)) (\<lambda>r.
          Inr (checkUniqueItems (header node) (children node) schema
                 (checkItemCounts (header node) (children node) schema r), snd s)))"
    by (simp add: validateArrayNode_def validateContains_shift [OF assms])
  also have "\<dots> = mapE (shiftState k) (validateArrayNode v n node schema r ms)"
    unfolding validateArrayNode_def
    by (intro bind_state validateItems_shift [OF assms]) (simp_all add: mapE_bindE)
  finally show ?thesis .
qed

definition shiftState3 :: "nat \<Rightarrow> string list \<times> vstate \<Rightarrow> string list \<times> vstate" where
  "shiftState3 k s = (fst s, shiftState k (snd s))"

lemma shiftState3_simps [simp]:
  "fst (shiftState3 k s) = fst s" "snd (shiftState3 k s) = shiftState k (snd s)"
  "shiftState3 k (u, t) = (u, shiftState k t)"
  by (simp_all add: shiftState3_def)

lemmas bind_state3 = bindE_shift [where g = "shiftState k" and g' = "shiftState3 k"] for k
lemmas fold_state3 = foldE_mapE [where g = "shiftState3 k"] for k

lemma case_option_shift:
  "(opt = None \<Longrightarrow> a' = mapE g a) \<Longrightarrow> (\<And>x. opt = Some x \<Longrightarrow> b' x = mapE g (b x)) \<Longrightarrow>
   (case opt of None \<Rightarrow> a' | Some x \<Rightarrow> b' x) = mapE g (case opt of None \<Rightarrow> a | Some x \<Rightarrow> b x)"
  by (cases opt) simp_all

lemma validateMatched_shift:
  assumes "shifted b k v v'" and "weight propertySchema < b"
  shows "validateMatched v' (n + k) schema name propertySchema pc (shiftState k s) =
         mapE (shiftState k) (validateMatched v n schema name propertySchema pc s)"
  unfolding validateMatched_def
  using validateInto_shift [OF assms, of n "Some (fst pc)" "Some (snd pc)" s]
  by (cases propertySchema) simp_all

lemma validateProperties_shift:
  assumes "shifted (weight schema) k v v'"
  shows "validateProperties v' (n + k) schema seenKeys (shiftState3 k s) =
         mapE (shiftState3 k) (validateProperties v n schema seenKeys s)"
  unfolding validateProperties_def Let_def
  by (intro if_shift fold_state3 case_option_shift bind_state3)
     (simp_all add: validateMatched_shift [OF assms] weight_keywords)

lemma validatePattern_shift:
  assumes "shifted (weight schema) k v v'" and "truthy (get schema ''patternProperties'')"
  shows "validatePattern v' (n + k) schema seenKeys propertyPattern regex (shiftState3 k s) =
         mapE (shiftState3 k) (validatePattern v n schema seenKeys propertyPattern regex s)"
proof -
  have "fst (shiftState3 k s) = fst s"
    by simp
  then show ?thesis
    unfolding validatePattern_def Let_def
    by (simp only:)
       (intro if_shift fold_state3 case_option_shift bind_state3,
        simp_all add: validateMatched_shift [OF assms(1)] weight_keywords assms(2))
qed

lemma validatePatternProperties_shift:
  assumes "shifted (weight schema) k v v'"
  shows "validatePatternProperties v' env (n + k) schema seenKeys (shiftState3 k s) =
         mapE (shiftState3 k) (validatePatternProperties v env n schema seenKeys s)"
  unfolding validatePatternProperties_def
  by (intro if_shift fold_state3)
     (simp_all add: mapE_bindE validatePattern_shift [OF assms])

lemma validateAdditionalProperties_shift:
  assumes "shifted (weight schema) k v v'"
  shows "validateAdditionalProperties v' (n + k) schema seenKeys u (shiftState k s) =
         mapE (shiftState k) (validateAdditionalProperties v n schema seenKeys u s)"
  unfolding validateAdditionalProperties_def
  by (intro if_shift fold_state case_option_shift validateInto_shift [OF assms])
     (simp_all add: weight_keywords)

lemma validateDependencies_shift:
  assumes "shifted (weight schema) k v v'"
  shows "validateDependencies v' env (n + k) parent node schema seenKeys (shiftState k s) =
         mapE (shiftState k) (validateDependencies v env n parent node schema seenKeys s)"
  unfolding validateDependencies_def Let_def
  by (intro if_shift fold_state case_option_shift validateInto_shift [OF assms])
     (simp_all add: weight_keywords)

lemma validatePropertyNames_shift:
  assumes "shifted (weight schema) k v v'"
  shows "validatePropertyNames v' (n + k) properties schema (shiftState k s) =
         mapE (shiftState k) (validatePropertyNames v n properties schema s)"
  unfolding validatePropertyNames_def Let_def
proof (intro if_shift fold_state)
  fix f and t :: vstate
  assume "truthy (asSchema (get schema ''propertyNames''))"
  then show "(case f of
          PropertyASTNode ph kh kv valueNode c \<Rightarrow>
            bindE (v' (n + k) (Some f) (Some (StringASTNode kh kv))
                     (asSchema (get schema ''propertyNames'')) (fst (shiftState k t))
                     NoOpSchemaCollector)
              (\<lambda>ta. Inr (fst ta, snd (shiftState k t)))
        | _ \<Rightarrow> Inr (shiftState k t)) =
        mapE (shiftState k)
          (case f of
             PropertyASTNode ph kh kv valueNode c \<Rightarrow>
               bindE (v n (Some f) (Some (StringASTNode kh kv))
                        (asSchema (get schema ''propertyNames'')) (fst t) NoOpSchemaCollector)
                 (\<lambda>ta. Inr (fst ta, snd t))
           | _ \<Rightarrow> Inr t)"
    by (cases f)
       (simp_all add: shiftedD_NoOp [OF assms] weight_keywords bindE_mapE mapE_bindE)
qed simp

lemma validateObjectNode_shift:
  assumes "shifted (weight schema) k v v'"
  shows "validateObjectNode v' env (n + k) parent node schema r (shiftCollector k ms) =
         mapE (shiftState k) (validateObjectNode v env n parent node schema r ms)"
proof -
  have properties: "validateProperties v' (n + k) schema seenKeys (u, r', shiftCollector k ms') =
      mapE (shiftState3 k) (validateProperties v n schema seenKeys (u, r', ms'))"
    for seenKeys u r' ms'
    using validateProperties_shift [OF assms, of n seenKeys "(u, r', ms')"] by simp
  have dependencies:
    "validateDependencies v' env (n + k) parent node schema seenKeys (r', shiftCollector k ms') =
      mapE (shiftState k) (validateDependencies v env n parent node schema seenKeys (r', ms'))"
    for seenKeys r' ms'
    using validateDependencies_shift [OF assms, of env n parent node seenKeys "(r', ms')"] by simp
  show ?thesis
    unfolding validateObjectNode_def Let_def
    apply (subst mapE_bindE)
    apply (rule bindE_cong [OF refl])
    apply (rule bindE_shift [where g = "shiftState3 k"])
     apply (rule properties)
    apply (rule bindE_shift [where g = "shiftState3 k"])
     apply (rule validatePatternProperties_shift [OF assms])
    apply (rule bindE_shift [where g = "shiftState k"])
     apply (simp add: validateAdditionalProperties_shift [OF assms])
    apply (rule bindE_shift [where g = "shiftState k"])
     apply (simp add: dependencies)
    apply (rule validatePropertyNames_shift [OF assms])
    done
qed

lemma validateByType_shift:
  assumes "shifted (weight schema) k v v'"
  shows "validateByType v' env (n + k) parent node schema (shiftState k s) =
         mapE (shiftState k) (validateByType v env n parent node schema s)"
  unfolding validateByType_def
  by (cases node)
     (simp_all add: validateObjectNode_shift [OF assms] validateArrayNode_shift [OF assms]
        mapE_bindE)

lemma validateAllOf_shift:
  assumes "shifted (weight schema) k v v'"
  shows "validateAllOf v' (n + k) parent node schema (shiftState k s) =
         mapE (shiftState k) (validateAllOf v n parent node schema s)"
  unfolding validateAllOf_def
  by (intro if_shift fold_state) (simp_all add: shiftedD [OF assms] weight_keywords)

lemma flips_shift:
  "foldl (\<lambda>matchingSchemas a. collector_add matchingSchemas (flipInverted a))
     (shiftCollector k ms) (map (shiftRecord k) as) =
   shiftCollector k
     (foldl (\<lambda>matchingSchemas a. collector_add matchingSchemas (flipInverted a)) ms as)"
  by (induction as arbitrary: ms) (simp_all add: flipInverted_shift)

lemma validateNot_shift:
  assumes "shifted (weight schema) k v v'"
  shows "validateNot v' (n + k) parent node schema (shiftState k s) =
         mapE (shiftState k) (validateNot v n parent node schema s)"
  unfolding validateNot_def Let_def
  by (intro if_shift bind_state)
     (simp_all add: shiftedD_Suc [OF assms] weight_keywords flips_shift)

definition shiftBest :: "nat \<Rightarrow> jsval list \<times> bestMatch \<Rightarrow> jsval list \<times> bestMatch" where
  "shiftBest k st =
     (fst st,
      case snd st of
        None \<Rightarrow> None
      | Some (bestSchema, bestResult, bestSchemas) \<Rightarrow>
          Some (bestSchema, bestResult, shiftCollector k bestSchemas))"

lemma betterMatch_shift:
  "betterMatch maxOneMatch subSchema (shiftState k sub) (shiftBest k st) =
   shiftBest k (betterMatch maxOneMatch subSchema sub st)"
  by (cases "snd st"; cases sub) (auto simp: betterMatch_def shiftBest_def Let_def)

lemma testAlternatives_shift:
  assumes "shifted b k v v'" and "\<And>x. x \<in> set alternatives \<Longrightarrow> weight (asSchema x) < b"
  shows "testAlternatives v' (n + k) parent node alternatives maxOneMatch (shiftState k s) =
         mapE (shiftState k) (testAlternatives v n parent node alternatives maxOneMatch s)"
proof -
  have start: "([], None) = shiftBest k ([], None)"
    by (simp add: shiftBest_def)
  show ?thesis
    unfolding testAlternatives_def Let_def
    apply (rule bindE_shift [where g = "shiftBest k"])
     apply (subst start)
     apply (rule foldE_mapE [where g = "shiftBest k"])
     apply (simp add: shiftedD [OF assms(1)] assms(2) bindE_mapE mapE_bindE betterMatch_shift)
    subgoal for st
      by (cases "snd st") (auto simp: shiftBest_def)
    done
qed

lemma validateAnyOf_shift:
  assumes "shifted (weight schema) k v v'"
  shows "validateAnyOf v' (n + k) parent node schema (shiftState k s) =
         mapE (shiftState k) (validateAnyOf v n parent node schema s)"
  unfolding validateAnyOf_def
  by (intro if_shift testAlternatives_shift [OF assms]) (simp_all add: weight_keywords)

lemma validateOneOf_shift:
  assumes "shifted (weight schema) k v v'"
  shows "validateOneOf v' (n + k) parent node schema (shiftState k s) =
         mapE (shiftState k) (validateOneOf v n parent node schema s)"
  unfolding validateOneOf_def
  by (intro if_shift testAlternatives_shift [OF assms]) (simp_all add: weight_keywords)

lemma testBranch_shift:
  assumes "shifted b k v v'" and "weight (asSchema x) < b"
  shows "testBranch v' (n + k) parent node x (shiftState k s) =
         mapE (shiftState k) (testBranch v n parent node x s)"
  unfolding testBranch_def
  by (intro bind_state) (simp_all add: shiftedD [OF assms])

lemma validateIf_shift:
  assumes "shifted (weight schema) k v v'"
  shows "validateIf v' (n + k) parent node schema (shiftState k s) =
         mapE (shiftState k) (validateIf v n parent node schema s)"
proof -
  have branch: "testBranch v' (n + k) parent node (asSchema (get schema key))
        (r, shiftCollector k ms) =
      mapE (shiftState k) (testBranch v n parent node (asSchema (get schema key)) (r, ms))"
    if "keyword key" and "truthy (asSchema (get schema key))" for key r ms
    using testBranch_shift [OF assms, of "asSchema (get schema key)" n parent node "(r, ms)"] that
    by (simp add: weight_keywords)
  show ?thesis
    unfolding validateIf_def testCondition_def Let_def
    by (intro if_shift bind_state)
       (simp_all add: shiftedD [OF assms] weight_keywords branch)
qed

lemma validateNode_shift:
  assumes "shifted (weight schema) k v v'"
  shows "validateNode v' (n + k) parent node schema (shiftState k s) =
         mapE (shiftState k) (validateNode v n parent node schema s)"
proof -
  have allOf: "validateAllOf v' (n + k) parent node schema (r, shiftCollector k ms) =
      mapE (shiftState k) (validateAllOf v n parent node schema (r, ms))" for r ms
    using validateAllOf_shift [OF assms, of n parent node "(r, ms)"] by simp
  show ?thesis
    unfolding validateNode_def
    apply (rule bind_state)
     apply (simp add: allOf)
    apply (rule bind_state)
     apply (rule validateNot_shift [OF assms])
    apply (rule bind_state)
     apply (rule validateAnyOf_shift [OF assms])
    apply (rule bind_state)
     apply (rule validateOneOf_shift [OF assms])
    apply (rule bind_state)
     apply (rule validateIf_shift [OF assms])
    apply simp
    done
qed

lemma validate_node_shift:
  assumes "shifted (weight schema) k (validate env) (validate env)"
  shows "validate env (n + k) parent (Some node) schema r (shiftCollector k ms) =
         mapE (shiftState k) (validate env n parent (Some node) schema r ms)"
proof -
  have absent: "validate env d p None schema r m = Inr (r, m)" for d p m
    by (subst validate.simps) simp
  have added: "\<lparr>appNode = a, inverted = None, appSchema = schema, notsCrossed = n + k\<rparr> =
      shiftRecord k \<lparr>appNode = a, inverted = None, appSchema = schema, notsCrossed = n\<rparr>" for a
    by (simp add: shiftRecord_def)
  have byType: "validateByType (validate env) env (n + k) p a schema (r, shiftCollector k ms) =
      mapE (shiftState k) (validateByType (validate env) env n p a schema (r, ms))" for a p
    using validateByType_shift [OF assms, of env n p a "(r, ms)"] by simp
  have other: "validate env (n + k) p (Some a) schema r (shiftCollector k ms) =
      mapE (shiftState k) (validate env n p (Some a) schema r ms)"
    if "node_type a \<noteq> ''property''" for a p
    using that
    by (subst (1 2) validate.simps, cases a)
       (simp_all add: byType validateNode_shift [OF assms] bindE_mapE mapE_bindE added)
  show ?thesis
  proof (induction node arbitrary: parent)
    case (PropertyASTNode h kh kv valueNode c)
    show ?case
    proof (cases valueNode)
      case None
      then show ?thesis
        by (subst (1 2) validate.simps) (simp add: absent)
    next
      case (Some child)
      then show ?thesis
        using PropertyASTNode [of child "Some (PropertyASTNode h kh kv valueNode c)"]
        by (subst (1 2) validate.simps) simp
    qed
  qed (rule other, simp)+
qed

lemma validate_shifted: "shifted b k (validate env) (validate env)"
proof (induction b rule: less_induct)
  case (less b)
  show ?case
    unfolding shifted_def
  proof (intro allI impI)
    fix n p c x r ms
    assume "weight x < b"
    from less [OF this] have x: "shifted (weight x) k (validate env) (validate env)" .
    show "validate env (n + k) p c x r (shiftCollector k ms) =
          mapE (shiftState k) (validate env n p c x r ms)"
    proof (cases c)
      case None
      then show ?thesis by (subst (1 2) validate.simps) simp
    next
      case (Some node)
      then show ?thesis using validate_node_shift [OF x] by simp
    qed
  qed
qed

text \<open>
  The auxiliary counter does not change what \<open>validate\<close> computes: with the counter and the
  records of the collector raised by \<open>k\<close>, \<open>validate\<close> raises the same exception or returns
  the same validation result and the same collector, its records raised by \<open>k\<close>.
\<close>

lemma validate_counter_inert:
  "validate env (nots + k) parent node schema r (shiftCollector k ms) =
     mapE (shiftState k) (validate env nots parent node schema r ms)"
  using validate_shifted [of "Suc (weight schema)" k env] by (simp add: shifted_def)

section \<open>The inverted flag\<close>

text \<open>
  A record is good at a depth \<open>d\<close> of \<^verbatim>\<open>not\<close> keywords when it was made at that depth or
  below it and its \<open>inverted\<close> flag is true exactly if the number of \<^verbatim>\<open>not\<close> keywords between
  that depth and the record is odd. A collector extends another at depth \<open>d\<close> when it has
  the records of the other and, after them, records that are good at \<open>d\<close>.
\<close>

definition good :: "nat \<Rightarrow> IApplicableSchema \<Rightarrow> bool" where
  "good d a = (d \<le> notsCrossed a \<and> ((inverted a = Some True) = odd (notsCrossed a - d)))"

definition extends :: "nat \<Rightarrow> ISchemaCollector \<Rightarrow> ISchemaCollector \<Rightarrow> bool" where
  "extends d ms ms' = (\<exists>new. schemas ms' = schemas ms @ new \<and> list_all (good d) new)"

text \<open>\<open>returns P m\<close>: if \<open>m\<close> is a result and no exception, the result satisfies \<open>P\<close>.\<close>

definition returns :: "('a \<Rightarrow> bool) \<Rightarrow> error + 'a \<Rightarrow> bool" where
  "returns P m = (case m of Inr x \<Rightarrow> P x | Inl e \<Rightarrow> True)"

definition sound :: "nat \<Rightarrow> validator \<Rightarrow> bool" where
  "sound b v =
     (\<forall>n p c x r ms. weight x < b \<longrightarrow> returns (\<lambda>s. extends n ms (snd s)) (v n p c x r ms))"

lemma returns_Inr [simp]: "returns P (Inr x) = P x"
  by (simp add: returns_def)

lemma returns_Inl [simp]: "returns P (Inl e)"
  by (simp add: returns_def)

lemma returns_bindE: "returns Q m \<Longrightarrow> (\<And>x. Q x \<Longrightarrow> returns P (f x)) \<Longrightarrow> returns P (bindE m f)"
  by (cases m) (simp_all add: bindE_def)

lemma returns_mono: "returns Q m \<Longrightarrow> (\<And>x. Q x \<Longrightarrow> P x) \<Longrightarrow> returns P m"
  by (cases m) simp_all

lemma returns_foldE:
  "I s \<Longrightarrow> (\<And>x t. x \<in> set xs \<Longrightarrow> I t \<Longrightarrow> returns I (f x t)) \<Longrightarrow> returns I (foldE f xs s)"
proof (induction xs arbitrary: s)
  case Nil
  then show ?case by simp
next
  case (Cons x xs)
  show ?case
    unfolding foldE.simps
  proof (rule returns_bindE)
    show "returns I (f x s)"
      using Cons.prems by simp
    show "returns I (foldE f xs t)" if "I t" for t
      using that Cons.prems(2) by (intro Cons.IH) simp_all
  qed
qed

lemma returns_True: "returns (\<lambda>x. True) m"
  by (cases m) simp_all

lemma soundD:
  "sound b v \<Longrightarrow> weight x < b \<Longrightarrow> returns (\<lambda>s. extends n ms (snd s)) (v n p c x r ms)"
  unfolding sound_def by blast

lemma extends_refl [simp]: "extends d ms ms"
  by (simp add: extends_def)

lemma extends_trans: "extends d a b \<Longrightarrow> extends d b c \<Longrightarrow> extends d a c"
  unfolding extends_def by fastforce

lemma extends_add: "good d a \<Longrightarrow> extends d ms (collector_add ms a)"
  by (cases ms) (simp_all add: extends_def)

lemma extends_merge: "list_all (good d) (schemas other) \<Longrightarrow> extends d ms (collector_merge ms other)"
  by (cases ms) (simp_all add: extends_def)

lemma schemas_newSub [simp]: "schemas (newSub ms) = []"
  by (cases ms) simp_all

lemma extends_newSub: "extends d (newSub ms) ms' \<Longrightarrow> list_all (good d) (schemas ms')"
  by (auto simp: extends_def)

lemma good_merge:
  "list_all (good d) (schemas a) \<Longrightarrow> list_all (good d) (schemas b) \<Longrightarrow>
   list_all (good d) (schemas (collector_merge a b))"
  by (cases a) simp_all

lemma good_flip: "good (Suc d) a \<Longrightarrow> good d (flipInverted a)"
  by (cases "inverted a") (auto simp: good_def flipInverted_def Suc_diff_le)

lemma extends_flips:
  "list_all (good (Suc d)) as \<Longrightarrow>
   extends d ms (foldl (\<lambda>matchingSchemas a. collector_add matchingSchemas (flipInverted a)) ms as)"
proof (induction as arbitrary: ms)
  case Nil
  then show ?case by simp
next
  case (Cons a as)
  then show ?case
    using extends_trans [OF extends_add [OF good_flip, of d a ms]] by simp
qed

text \<open>The validators keep the collector they are given and extend it.\<close>

lemma returns_if:
  "(c \<Longrightarrow> returns P a) \<Longrightarrow> (\<not> c \<Longrightarrow> returns P b) \<Longrightarrow> returns P (if c then a else b)"
  by simp

lemma validateInto_extends:
  assumes "sound b v" and "weight x < b" and "extends d ms (snd s0)"
  shows "returns (\<lambda>t. extends d ms (snd t)) (validateInto v d p c x s0)"
  unfolding validateInto_def
  using assms(3) by (intro returns_bindE [OF soundD [OF assms(1,2)]]) (auto intro: extends_trans)

lemma validateItems_extends:
  assumes "sound (weight schema) v" and "extends d ms (snd s0)"
  shows "returns (\<lambda>t. extends d ms (snd t)) (validateItems v d node schema s0)"
  unfolding validateItems_def Let_def
  by (intro returns_if returns_bindE [where Q = "\<lambda>t. extends d ms (snd t)"] returns_foldE
      validateInto_extends [OF assms(1)] assms(2))
     (auto simp: weight_keywords assms(2))

lemma validateArrayNode_extends:
  assumes "sound (weight schema) v"
  shows "returns (\<lambda>t. extends d ms (snd t)) (validateArrayNode v d node schema r ms)"
  unfolding validateArrayNode_def
  by (intro returns_bindE [OF validateItems_extends [OF assms]] returns_bindE [OF returns_True])
     simp_all

lemma validateMatched_extends:
  assumes "sound b v" and "weight propertySchema < b" and "extends d ms (snd s)"
  shows "returns (\<lambda>t. extends d ms (snd t))
           (validateMatched v d schema name propertySchema pc s)"
  unfolding validateMatched_def
  using assms(3) validateInto_extends [OF assms]
  by (cases propertySchema) simp_all

lemma validateProperties_extends:
  assumes "sound (weight schema) v" and "extends d ms (snd (snd s0))"
  shows "returns (\<lambda>t. extends d ms (snd (snd t))) (validateProperties v d schema seenKeys s0)"
  unfolding validateProperties_def Let_def
  by (intro returns_if returns_foldE)
     (auto simp: assms(2) weight_keywords split: option.splits
        intro!: returns_bindE [OF validateMatched_extends [OF assms(1)]])

lemma validatePattern_extends:
  assumes "sound (weight schema) v" and "truthy (get schema ''patternProperties'')"
    and "extends d ms (snd (snd s1))"
  shows "returns (\<lambda>t. extends d ms (snd (snd t)))
           (validatePattern v d schema seenKeys propertyPattern regex s1)"
  unfolding validatePattern_def Let_def
  by (intro returns_if returns_foldE)
     (auto simp: assms(2,3) weight_keywords split: option.splits
        intro!: returns_bindE [OF validateMatched_extends [OF assms(1)]])

lemma validatePatternProperties_extends:
  assumes "sound (weight schema) v" and "extends d ms (snd (snd s0))"
  shows "returns (\<lambda>t. extends d ms (snd (snd t)))
           (validatePatternProperties v env d schema seenKeys s0)"
  unfolding validatePatternProperties_def
  by (intro returns_if returns_foldE returns_bindE [OF returns_True]
      validatePattern_extends [OF assms(1)])
     (simp_all add: assms(2))

lemma validateAdditionalProperties_extends:
  assumes "sound (weight schema) v" and "extends d ms (snd s0)"
  shows "returns (\<lambda>t. extends d ms (snd t))
           (validateAdditionalProperties v d schema seenKeys u s0)"
  unfolding validateAdditionalProperties_def
  by (intro returns_if returns_foldE)
     (auto simp: assms(2) weight_keywords split: option.splits
        intro!: validateInto_extends [OF assms(1)])

lemma validateDependencies_extends:
  assumes "sound (weight schema) v" and "extends d ms (snd s0)"
  shows "returns (\<lambda>t. extends d ms (snd t))
           (validateDependencies v env d parent node schema seenKeys s0)"
  unfolding validateDependencies_def Let_def
  by (intro returns_if returns_foldE)
     (auto simp: assms(2) weight_keywords split: option.splits
        intro!: validateInto_extends [OF assms(1)])

lemma validatePropertyNames_extends:
  assumes "extends d ms (snd s0)"
  shows "returns (\<lambda>t. extends d ms (snd t)) (validatePropertyNames v d properties schema s0)"
  unfolding validatePropertyNames_def Let_def
  by (intro returns_if returns_foldE)
     (auto simp: assms split: ASTNode.splits intro!: returns_bindE [OF returns_True])

lemma validateObjectNode_extends:
  assumes "sound (weight schema) v"
  shows "returns (\<lambda>t. extends d ms (snd t)) (validateObjectNode v env d parent node schema r ms)"
  unfolding validateObjectNode_def Let_def
  by (intro returns_bindE [OF returns_True]
      returns_bindE [OF validateProperties_extends [OF assms]]
      returns_bindE [OF validatePatternProperties_extends [OF assms]]
      returns_bindE [OF validateAdditionalProperties_extends [OF assms]]
      returns_bindE [OF validateDependencies_extends [OF assms]]
      validatePropertyNames_extends)
     simp_all

lemma validateByType_extends:
  assumes "sound (weight schema) v" and "extends d ms (snd s0)"
  shows "returns (\<lambda>t. extends d ms (snd t)) (validateByType v env d parent node schema s0)"
proof -
  have "returns (\<lambda>t. extends d ms (snd t)) (validateObjectNode v env d parent node schema r (snd s0))"
    for r
    by (rule returns_mono [OF validateObjectNode_extends [OF assms(1)]])
       (use assms(2) in \<open>auto intro: extends_trans\<close>)
  moreover
  have "returns (\<lambda>t. extends d ms (snd t)) (validateArrayNode v d node schema r (snd s0))" for r
    by (rule returns_mono [OF validateArrayNode_extends [OF assms(1)]])
       (use assms(2) in \<open>auto intro: extends_trans\<close>)
  ultimately show ?thesis
    unfolding validateByType_def
    using assms(2)
    by (cases node) (auto intro!: returns_bindE [OF returns_True])
qed

lemma validateAllOf_extends:
  assumes "sound (weight schema) v" and "extends d ms (snd s0)"
  shows "returns (\<lambda>t. extends d ms (snd t)) (validateAllOf v d parent node schema s0)"
  unfolding validateAllOf_def
proof (intro returns_if returns_foldE)
  fix subSchemaRef and t :: vstate
  assume "subSchemaRef \<in> set (elems (get schema ''allOf''))" and t: "extends d ms (snd t)"
  then have "weight (asSchema subSchemaRef) < weight schema"
    by (simp add: weight_keywords)
  from soundD [OF assms(1) this]
  show "returns (\<lambda>t. extends d ms (snd t))
          (v d parent (Some node) (asSchema subSchemaRef) (fst t) (snd t))"
    by (rule returns_mono) (use t in \<open>auto intro: extends_trans\<close>)
qed (simp_all add: assms(2))

lemma validateNot_extends:
  assumes "sound (weight schema) v" and "extends d ms (snd s0)"
  shows "returns (\<lambda>t. extends d ms (snd t)) (validateNot v d parent node schema s0)"
  unfolding validateNot_def Let_def
proof (intro returns_if returns_bindE [where Q = "\<lambda>sub. list_all (good (Suc d)) (schemas (snd sub))"])
  assume "truthy (asSchema (get schema ''not''))"
  then have "weight (asSchema (get schema ''not'')) < weight schema"
    by (simp add: weight_keywords)
  from soundD [OF assms(1) this]
  show "returns (\<lambda>sub. list_all (good (Suc d)) (schemas (snd sub)))
          (v (Suc d) parent (Some node) (asSchema (get schema ''not'')) new_ValidationResult
             (newSub (snd s0)))"
    by (rule returns_mono) (rule extends_newSub)
next
  fix sub :: vstate
  assume "list_all (good (Suc d)) (schemas (snd sub))"
  from extends_trans [OF assms(2) extends_flips [OF this]]
  show "returns (\<lambda>t. extends d ms (snd t))
          (Inr (if \<not> hasProblems (fst sub)
                then push (fst s0) (nodeWarning (header node)
                       (Localize ''notSchemaWarning'' ''Matches a schema that is not allowed.'' []))
                else fst s0,
                foldl (\<lambda>matchingSchemas ms. collector_add matchingSchemas (flipInverted ms))
                  (snd s0) (schemas (snd sub))))"
    by simp
qed (simp add: assms(2))

definition goodBest :: "nat \<Rightarrow> jsval list \<times> bestMatch \<Rightarrow> bool" where
  "goodBest d st =
     (case snd st of
        None \<Rightarrow> True
      | Some (bestSchema, bestResult, bestSchemas) \<Rightarrow> list_all (good d) (schemas bestSchemas))"

lemma betterMatch_good:
  "goodBest d st \<Longrightarrow> list_all (good d) (schemas (snd sub)) \<Longrightarrow>
   goodBest d (betterMatch maxOneMatch subSchema sub st)"
  by (auto simp: goodBest_def betterMatch_def Let_def good_merge split: option.splits)

lemma testAlternatives_extends:
  assumes "sound b v" and "\<And>x. x \<in> set alternatives \<Longrightarrow> weight (asSchema x) < b"
    and "extends d ms (snd s0)"
  shows "returns (\<lambda>t. extends d ms (snd t))
           (testAlternatives v d parent node alternatives maxOneMatch s0)"
  unfolding testAlternatives_def Let_def
proof (rule returns_bindE [where Q = "goodBest d"])
  show "returns (goodBest d)
     (foldE (\<lambda>subSchemaRef st.
         bindE (v d parent (Some node) (asSchema subSchemaRef) new_ValidationResult
                  (newSub (snd s0)))
           (\<lambda>sub. Inr (betterMatch maxOneMatch (asSchema subSchemaRef) sub st)))
        alternatives ([], None))"
  proof (intro returns_foldE
      returns_bindE [where Q = "\<lambda>sub. list_all (good d) (schemas (snd sub))"])
    fix x
    assume "x \<in> set alternatives"
    from soundD [OF assms(1) assms(2) [OF this]]
    show "returns (\<lambda>sub. list_all (good d) (schemas (snd sub)))
            (v d parent (Some node) (asSchema x) new_ValidationResult (newSub (snd s0)))"
      by (rule returns_mono) (rule extends_newSub)
  qed (simp_all add: betterMatch_good, simp add: goodBest_def)
next
  fix st :: "jsval list \<times> bestMatch"
  assume "goodBest d st"
  then show "returns (\<lambda>t. extends d ms (snd t))
     (Inr (case snd st of
             None \<Rightarrow>
               (if 1 < length (fst st) \<and> maxOneMatch
                then push (fst s0) (warning (nodeOffset (header node)) 1
                       (Localize ''oneOfWarning''
                          ''Matches multiple schemas when only one must validate.'' []))
                else fst s0, snd s0)
           | Some (bestSchema, bestResult, bestSchemas) \<Rightarrow>
               (mergeWithScores
                  (if 1 < length (fst st) \<and> maxOneMatch
                   then push (fst s0) (warning (nodeOffset (header node)) 1
                          (Localize ''oneOfWarning''
                             ''Matches multiple schemas when only one must validate.'' []))
                   else fst s0)
                  bestResult,
                collector_merge (snd s0) bestSchemas)))"
    using assms(3)
    by (auto simp: goodBest_def split: option.splits
        intro: extends_trans [OF _ extends_merge])
qed

lemma validateAnyOf_extends:
  assumes "sound (weight schema) v" and "extends d ms (snd s0)"
  shows "returns (\<lambda>t. extends d ms (snd t)) (validateAnyOf v d parent node schema s0)"
  unfolding validateAnyOf_def
  by (intro returns_if testAlternatives_extends [OF assms(1) _ assms(2)])
     (simp_all add: assms(2) weight_keywords)

lemma validateOneOf_extends:
  assumes "sound (weight schema) v" and "extends d ms (snd s0)"
  shows "returns (\<lambda>t. extends d ms (snd t)) (validateOneOf v d parent node schema s0)"
  unfolding validateOneOf_def
  by (intro returns_if testAlternatives_extends [OF assms(1) _ assms(2)])
     (simp_all add: assms(2) weight_keywords)

lemma sub_good:
  assumes "sound b v" and "weight x < b"
  shows "returns (\<lambda>sub. list_all (good d) (schemas (snd sub))) (v d p c x r (newSub ms))"
  by (rule returns_mono [OF soundD [OF assms]]) (rule extends_newSub)

lemma testBranch_extends:
  assumes "sound b v" and "weight (asSchema x) < b" and "extends d ms (snd s0)"
  shows "returns (\<lambda>t. extends d ms (snd t)) (testBranch v d parent node x s0)"
  unfolding testBranch_def
  by (rule returns_bindE [OF sub_good [OF assms(1,2)]])
     (use assms(3) in \<open>auto intro: extends_trans [OF _ extends_merge]\<close>)

lemma validateIf_extends:
  assumes "sound (weight schema) v" and "extends d ms (snd s0)"
  shows "returns (\<lambda>t. extends d ms (snd t)) (validateIf v d parent node schema s0)"
  unfolding validateIf_def testCondition_def Let_def
proof (intro returns_if returns_bindE [OF sub_good [OF assms(1)]])
  fix sub :: vstate
  assume sub: "list_all (good d) (schemas (snd sub))"
  have s1: "extends d ms (snd (fst s0, collector_merge (snd s0) (snd sub)))"
    using extends_trans [OF assms(2) extends_merge [OF sub]] by simp
  show "returns (\<lambda>t. extends d ms (snd t))
          (testBranch v d parent node (asSchema (get schema ''then''))
             (fst s0, collector_merge (snd s0) (snd sub)))"
    if "truthy (asSchema (get schema ''then''))"
    by (rule testBranch_extends [OF assms(1) _ s1]) (simp add: that weight_keywords)
  show "returns (\<lambda>t. extends d ms (snd t))
          (testBranch v d parent node (asSchema (get schema ''else''))
             (fst s0, collector_merge (snd s0) (snd sub)))"
    if "truthy (asSchema (get schema ''else''))"
    by (rule testBranch_extends [OF assms(1) _ s1]) (simp add: that weight_keywords)
  show "returns (\<lambda>t. extends d ms (snd t)) (Inr (fst s0, collector_merge (snd s0) (snd sub)))"
    using s1 by simp
  show "returns (\<lambda>t. extends d ms (snd t)) (Inr (fst s0, collector_merge (snd s0) (snd sub)))"
    using s1 by simp
qed (simp_all add: assms(2) weight_keywords)

lemma validateNode_extends:
  assumes "sound (weight schema) v" and "extends d ms (snd s0)"
  shows "returns (\<lambda>t. extends d ms (snd t)) (validateNode v d parent node schema s0)"
  unfolding validateNode_def
  by (intro returns_bindE [OF validateAllOf_extends [OF assms(1)]]
      returns_bindE [OF validateNot_extends [OF assms(1)]]
      returns_bindE [OF validateAnyOf_extends [OF assms(1)]]
      returns_bindE [OF validateOneOf_extends [OF assms(1)]]
      returns_bindE [OF validateIf_extends [OF assms(1)]])
     (simp_all add: assms(2))

lemma validate_node_extends:
  assumes "sound (weight schema) (validate env)"
  shows "returns (\<lambda>t. extends d ms (snd t)) (validate env d parent (Some n) schema r ms)"
proof (induction n arbitrary: parent)
  case (PropertyASTNode h kh kv valueNode c)
  show ?case
  proof (cases valueNode)
    case None
    then show ?thesis
      by (subst validate.simps, simp, subst validate.simps, simp)
  next
    case (Some child)
    then show ?thesis
      using PropertyASTNode [of child "Some (PropertyASTNode h kh kv valueNode c)"]
      by (subst validate.simps) simp
  qed
next
  case (NullASTNode h)
  show ?case
    by (subst validate.simps)
       (auto intro!: returns_bindE [OF validateByType_extends [OF assms]]
          returns_bindE [OF validateNode_extends [OF assms]]
          extends_trans [OF _ extends_add] simp: good_def)
next
  case (BooleanASTNode h b)
  show ?case
    by (subst validate.simps)
       (auto intro!: returns_bindE [OF validateByType_extends [OF assms]]
          returns_bindE [OF validateNode_extends [OF assms]]
          extends_trans [OF _ extends_add] simp: good_def)
next
  case (ArrayASTNode h items)
  show ?case
    by (subst validate.simps)
       (auto intro!: returns_bindE [OF validateByType_extends [OF assms]]
          returns_bindE [OF validateNode_extends [OF assms]]
          extends_trans [OF _ extends_add] simp: good_def)
next
  case (NumberASTNode h i v)
  show ?case
    by (subst validate.simps)
       (auto intro!: returns_bindE [OF validateByType_extends [OF assms]]
          returns_bindE [OF validateNode_extends [OF assms]]
          extends_trans [OF _ extends_add] simp: good_def)
next
  case (StringASTNode h v)
  show ?case
    by (subst validate.simps)
       (auto intro!: returns_bindE [OF validateByType_extends [OF assms]]
          returns_bindE [OF validateNode_extends [OF assms]]
          extends_trans [OF _ extends_add] simp: good_def)
next
  case (ObjectASTNode h properties)
  show ?case
    by (subst validate.simps)
       (auto intro!: returns_bindE [OF validateByType_extends [OF assms]]
          returns_bindE [OF validateNode_extends [OF assms]]
          extends_trans [OF _ extends_add] simp: good_def)
qed

lemma validate_sound: "sound b (validate env)"
proof (induction b rule: less_induct)
  case (less b)
  show ?case
    unfolding sound_def
  proof (intro allI impI)
    fix n p c x r ms
    assume "weight x < b"
    from less [OF this] have x: "sound (weight x) (validate env)" .
    show "returns (\<lambda>s. extends n ms (snd s)) (validate env n p c x r ms)"
    proof (cases c)
      case None
      then show ?thesis by (subst validate.simps) simp
    next
      case (Some node)
      then show ?thesis using validate_node_extends [OF x] by simp
    qed
  qed
qed

text \<open>
  C5. In every record that \<open>getMatchingSchemas\<close> returns, \<open>inverted\<close> is true if and only if
  the number of \<^verbatim>\<open>not\<close> keywords crossed on the way from the root schema to the schema of
  the record is odd.
\<close>

theorem inverted_iff_odd_nots:
  "getMatchingSchemas env doc schema focusOffset exclude = Inr records \<Longrightarrow>
   \<forall>a \<in> set records. (inverted a = Some True) = odd (notsCrossed a)"
proof -
  assume result: "getMatchingSchemas env doc schema focusOffset exclude = Inr records"
  have "sound (Suc (weight schema)) (validate env)"
    by (rule validate_sound)
  then have "returns (\<lambda>s. extends 0 (SchemaCollector focusOffset exclude []) (snd s))
     (validate env 0 None (root doc) schema new_ValidationResult
        (SchemaCollector focusOffset exclude []))"
    by (rule soundD) simp
  with result have "list_all (good 0) records"
    by (auto simp: getMatchingSchemas_def Let_def bindE_def extends_def
        split: if_splits sum.splits)
  then show ?thesis
    by (simp add: good_def list_all_iff)
qed

theorem inverted_iff_odd_nots_witness:
  "getMatchingSchemas env0 \<lparr>root = Some five\<rparr> notNotSchema (- 1) None =
     Inr [\<lparr>appNode = five, inverted = Some False, appSchema = stringBranch, notsCrossed = 2\<rparr>,
          \<lparr>appNode = five, inverted = Some True,
           appSchema = JObj [(''not'', stringBranch)], notsCrossed = 1\<rparr>,
          \<lparr>appNode = five, inverted = None, appSchema = notNotSchema, notsCrossed = 0\<rparr>] \<and>
   list_all (\<lambda>a. (inverted a = Some True) = odd (notsCrossed a))
     [\<lparr>appNode = five, inverted = Some False, appSchema = stringBranch, notsCrossed = 2\<rparr>,
      \<lparr>appNode = five, inverted = Some True,
       appSchema = JObj [(''not'', stringBranch)], notsCrossed = 1\<rparr>,
      \<lparr>appNode = five, inverted = None, appSchema = notNotSchema, notsCrossed = 0\<rparr>]"
proof -
  have e: "getMatchingSchemas env0 \<lparr>root = Some five\<rparr> notNotSchema (- 1) None =
     Inr [\<lparr>appNode = five, inverted = Some False, appSchema = stringBranch, notsCrossed = 2\<rparr>,
          \<lparr>appNode = five, inverted = Some True,
           appSchema = JObj [(''not'', stringBranch)], notsCrossed = 1\<rparr>,
          \<lparr>appNode = five, inverted = None, appSchema = notNotSchema, notsCrossed = 0\<rparr>]"
    by code_simp
  from inverted_iff_odd_nots [OF e] e show ?thesis
    by (simp add: list_all_iff)
qed

end
